theory Spec2Isabelle
  imports Main
begin

section \<open>JavaScript values, objects and the object store\<close>

text \<open>
  A compiled template is the function returned by the Handlebars compiler. The core never
  looks inside it, so it is represented by the source text it was compiled from; running
  it is the job of the engine (a field of \<open>world\<close> below).
\<close>

datatype template = Compiled string

text \<open>
  The values that reach the view engine. \<open>Strs\<close> is an array of strings (a list of partial
  directories), \<open>Fun\<close> a compiled template passed as a value, \<open>Callback\<close> any other
  function (a completion callback), \<open>Ref\<close> a reference to a plain object in the store.
\<close>

datatype jsval =
    Undefined | Null | Bool bool | Num int | Str string
  | Strs "string list" | Fun template | Callback | Ref nat

type_synonym obj = "string \<Rightarrow> jsval option"
type_synonym heap = "obj list"

fun truthy :: "jsval \<Rightarrow> bool" where
  "truthy Undefined = False"
| "truthy Null = False"
| "truthy (Bool b) = b"
| "truthy (Num n) = (n \<noteq> 0)"
| "truthy (Str s) = (s \<noteq> [])"
| "truthy (Strs xs) = True"
| "truthy (Fun t) = True"
| "truthy Callback = True"
| "truthy (Ref a) = True"

definition js_or :: "jsval \<Rightarrow> jsval \<Rightarrow> jsval" where
  \<comment> \<open>\<open>a || b\<close>\<close>
  "js_or a b = (if truthy a then a else b)"

fun is_function :: "jsval \<Rightarrow> bool" where
  \<comment> \<open>\<open>typeof v === 'function'\<close>\<close>
  "is_function (Fun t) = True"
| "is_function Callback = True"
| "is_function v = False"

definition get_prop :: "heap \<Rightarrow> jsval \<Rightarrow> string \<Rightarrow> jsval" where
  \<comment> \<open>\<open>v[k]\<close> on a value that is not null or undefined; a missing property reads as
      undefined, and so does every property of a primitive.\<close>
  "get_prop h v k =
     (case v of
        Ref a \<Rightarrow> (if a < length h then (case (h ! a) k of Some x \<Rightarrow> x | None \<Rightarrow> Undefined)
                  else Undefined)
      | _ \<Rightarrow> Undefined)"

definition has_prop :: "heap \<Rightarrow> nat \<Rightarrow> string \<Rightarrow> bool" where
  \<comment> \<open>\<open>k in o\<close> for a plain object\<close>
  "has_prop h a k = (a < length h \<and> (h ! a) k \<noteq> None)"

definition set_prop :: "heap \<Rightarrow> nat \<Rightarrow> string \<Rightarrow> jsval \<Rightarrow> heap" where
  \<comment> \<open>\<open>o[k] = v\<close>: the object at address \<open>a\<close> is changed in place\<close>
  "set_prop h a k v = h[a := (h ! a)(k \<mapsto> v)]"

definition new_object :: "heap \<Rightarrow> obj \<Rightarrow> nat \<times> heap" where
  \<comment> \<open>an object literal: a fresh address\<close>
  "new_object h ob = (length h, h @ [ob])"

section \<open>Errors and completions\<close>

datatype error =
    ExpectsUrl              \<comment> \<open>RemoteHandlebars.getLayout expects url or this.layout\<close>
  | ExpectsLayoutCallback   \<comment> \<open>RemoteHandlebars.getLayout expects callback\<close>
  | ExpectsFilePath         \<comment> \<open>RemoteHandlebars.getView expects filePath\<close>
  | ExpectsViewCallback     \<comment> \<open>RemoteHandlebars.getView expects callback\<close>
  | ExpectsPartialsDir      \<comment> \<open>RemoteHandlebars.getPartials expects partialsDir or this.partialsDir\<close>
  | ExpectsPartialsCallback \<comment> \<open>RemoteHandlebars.getPartials expects callback\<close>
  | HttpStatus nat          \<comment> \<open>HTTP status code 'n' received\<close>
  | External string         \<comment> \<open>an error handed over by the transport or the file system\<close>
  | TypeError               \<comment> \<open>raised by the language: property of a primitive, call of a non-function\<close>
  | IllTyped                \<comment> \<open>an argument outside the documented types, whose behaviour is not modelled\<close>

text \<open>
  How an asynchronous method ends: it throws before returning, or it hands its callback an
  error, or a value. \<open>Pending\<close> is the end of a task whose completion callback is never
  called, so that whoever waits for it waits forever.
\<close>

datatype 'a outcome = Throws error | Fails error | Returns 'a | Pending

fun completed :: "error + 'a \<Rightarrow> 'a outcome" where
  "completed (Inl e) = Fails e"
| "completed (Inr v) = Returns v"

section \<open>The collaborators\<close>

datatype event = Requested jsval | ReadFile string | Glob string

record response =
  statusCode :: nat
  headers :: "string \<Rightarrow> string option"
  body :: string

text \<open>What the forever store holds: a compiled view, or a map of compiled partials.\<close>

datatype cval = CT template | CP "string \<Rightarrow> template option"

record settings =
  s_helpers :: jsval
  s_partials :: "cval option"
  s_data :: jsval

text \<open>
  The transport, the file system and the template engine, each a function of what has
  happened so far (the log of input/output events), so that a resource may change between
  two calls.
\<close>

record world =
  cwd :: string
  request :: "event list \<Rightarrow> heap \<Rightarrow> nat \<Rightarrow> error + response"
  readFile :: "event list \<Rightarrow> string \<Rightarrow> error + string"
  glob :: "event list \<Rightarrow> string \<Rightarrow> error + string list"
  exec :: "template \<Rightarrow> heap \<Rightarrow> nat \<Rightarrow> settings \<Rightarrow> string"

subsection \<open>Path resolution\<close>

text \<open>
  Modelled from the spec: \<open>path.resolve\<close> belongs to the platform library and is not
  part of the sources. The spec only says that the loader normalises a local identifier to
  its resolved absolute path; the definition follows the POSIX algorithm of the platform:
  the arguments are joined from the last one backwards until an absolute one is met, the
  working directory coming last, and the result is normalised.
\<close>

fun split_on :: "char \<Rightarrow> string \<Rightarrow> string list" where
  "split_on c [] = [[]]"
| "split_on c (x # xs) =
     (if x = c then [] # split_on c xs
      else (case split_on c xs of [] \<Rightarrow> [[x]] | s # ss \<Rightarrow> (x # s) # ss))"

fun join_with :: "string \<Rightarrow> string list \<Rightarrow> string" where
  "join_with sep [] = []"
| "join_with sep [s] = s"
| "join_with sep (s # ss) = s @ sep @ join_with sep ss"

fun normalize_segments :: "bool \<Rightarrow> string list \<Rightarrow> string list \<Rightarrow> string list" where
  \<comment> \<open>the segments kept so far are held in reverse\<close>
  "normalize_segments up acc [] = rev acc"
| "normalize_segments up acc (s # ss) =
     (if s = [] \<or> s = ''.'' then normalize_segments up acc ss
      else if s = ''..'' then
        (case acc of
           [] \<Rightarrow> normalize_segments up (if up then [s] else []) ss
         | t # ts \<Rightarrow> if t = ''..'' then normalize_segments up (s # acc) ss
                     else normalize_segments up ts ss)
      else normalize_segments up (s # acc) ss)"

definition normalizeString :: "string \<Rightarrow> bool \<Rightarrow> string" where
  "normalizeString p allowAboveRoot =
     join_with ''/'' (normalize_segments allowAboveRoot [] (split_on CHR ''/'' p))"

fun resolve_back :: "string list \<Rightarrow> string \<Rightarrow> string \<times> bool" where
  \<comment> \<open>the arguments from the last one backwards\<close>
  "resolve_back [] acc = (acc, False)"
| "resolve_back (p # ps) acc =
     (if p = [] then resolve_back ps acc
      else if hd p = CHR ''/'' then (p @ ''/'' @ acc, True)
      else resolve_back ps (p @ ''/'' @ acc))"

definition path_resolve :: "string \<Rightarrow> string list \<Rightarrow> string" where
  "path_resolve wd args =
     (case resolve_back (rev args @ [wd]) [] of
        (resolvedPath, resolvedAbsolute) \<Rightarrow>
          (let n = normalizeString resolvedPath (\<not> resolvedAbsolute)
           in if resolvedAbsolute then CHR ''/'' # n
              else if n \<noteq> [] then n else ''.''))"

section \<open>Compiling and loading templates\<close>

definition compile :: "string \<Rightarrow> template" where
  "compile src = Compiled src"

type_synonym 'a io = "event list \<Rightarrow> (error + 'a) \<times> event list"

definition readTemplate :: "world \<Rightarrow> string \<Rightarrow> template io" where
  "readTemplate w filePath lg =
     (case readFile w lg filePath of
        Inl e \<Rightarrow> (Inl e, lg @ [ReadFile filePath])
      | Inr content \<Rightarrow> (Inr (compile content), lg @ [ReadFile filePath]))"

definition ends_with :: "string \<Rightarrow> string \<Rightarrow> bool" where
  "ends_with suf s = (length suf \<le> length s \<and> drop (length s - length suf) s = suf)"

definition partial_name :: "string \<Rightarrow> string" where
  \<comment> \<open>\<open>file.replace(/\.(handlebars|hbs)$/, '')\<close>\<close>
  "partial_name file =
     (if ends_with ''.handlebars'' file then take (length file - 11) file
      else if ends_with ''.hbs'' file then take (length file - 4) file
      else file)"

type_synonym pmap = "string \<Rightarrow> template option"

text \<open>
  \<open>async.each\<close> over the files of one directory: every file is read (all reads are
  started at once), each success is written into the shared map under its partial name,
  and the first error is what the directory reports. Completions are taken in the order of
  the file list.
\<close>

fun each_file :: "world \<Rightarrow> string \<Rightarrow> string list \<Rightarrow> (error + pmap) \<Rightarrow> pmap io" where
  "each_file w dir [] acc lg = (acc, lg)"
| "each_file w dir (file # files) acc lg =
     (case readTemplate w (path_resolve (cwd w) [dir, file]) lg of
        (Inl e, lg') \<Rightarrow>
          each_file w dir files (case acc of Inl e0 \<Rightarrow> Inl e0 | Inr t \<Rightarrow> Inl e) lg'
      | (Inr tpl, lg') \<Rightarrow>
          each_file w dir files
            (case acc of Inl e0 \<Rightarrow> Inl e0 | Inr t \<Rightarrow> Inr (t(partial_name file \<mapsto> tpl))) lg')"

text \<open>\<open>async.reduce\<close> over the directories, in order, stopping at the first error.\<close>

fun reduce_dirs :: "world \<Rightarrow> string list \<Rightarrow> pmap \<Rightarrow> pmap io" where
  "reduce_dirs w [] templates lg = (Inr templates, lg)"
| "reduce_dirs w (dir # dirs) templates lg =
     (case glob w lg dir of
        Inl e \<Rightarrow> (Inl e, lg @ [Glob dir])
      | Inr files \<Rightarrow>
          (case each_file w dir files (Inr templates) (lg @ [Glob dir]) of
             (Inl e, lg') \<Rightarrow> (Inl e, lg')
           | (Inr templates', lg') \<Rightarrow> reduce_dirs w dirs templates' lg'))"

definition findTemplates :: "world \<Rightarrow> string list \<Rightarrow> pmap io" where
  "findTemplates w paths lg = reduce_dirs w paths Map.empty lg"

section \<open>The freshness-aware store\<close>

text \<open>
  Modelled from the spec: the store behind \<open>this.cache\<close> and \<open>this.cacheForever\<close> is a cache
  library (stale-lru-cache in one variant of the sources, cache-manager in the other) that
  is not part of the sources. The definitions of this section follow the spec's data model
  (an entry with \<open>expiresAt\<close> and \<open>staleUntil\<close>), its freshness policy (rules 1 to 3) and its
  read-through operation, which the sources call \<open>wrap\<close>. Times are in seconds;
  \<open>None\<close> stands for "never" (an infinite age) and for "unbounded" (an infinite size).
\<close>

record 'v entry =
  e_value :: 'v
  expiresAt :: "nat option"
  staleUntil :: "nat option"

type_synonym 'v store = "(jsval \<times> 'v entry) list"  \<comment> \<open>most recently used first\<close>

record policy =
  maxAge :: "nat option"
  staleWhileRevalidate :: nat
  maxSize :: "nat option"

record directives =
  d_maxAge :: "nat option"
  d_staleWhileRevalidate :: "nat option"
  noStore :: bool
  noCache :: bool
  mustRevalidate :: bool

definition trim :: "string \<Rightarrow> string" where
  "trim s = rev (dropWhile (\<lambda>c. c = CHR '' '') (rev (dropWhile (\<lambda>c. c = CHR '' '') s)))"

definition digit_of :: "char \<Rightarrow> nat option" where
  "digit_of =
     map_of [(CHR ''0'', 0), (CHR ''1'', 1), (CHR ''2'', 2), (CHR ''3'', 3), (CHR ''4'', 4),
             (CHR ''5'', 5), (CHR ''6'', 6), (CHR ''7'', 7), (CHR ''8'', 8), (CHR ''9'', 9)]"

fun digits_value :: "nat \<Rightarrow> string \<Rightarrow> nat option" where
  "digits_value acc [] = Some acc"
| "digits_value acc (c # cs) =
     (case digit_of c of None \<Rightarrow> None | Some d \<Rightarrow> digits_value (10 * acc + d) cs)"

definition seconds_of :: "string \<Rightarrow> string \<Rightarrow> nat option" where
  \<comment> \<open>the value of a directive \<open>name=seconds\<close>\<close>
  "seconds_of name tok =
     (if take (length name + 1) tok = name @ ''='' \<and> length name + 1 < length tok
      then digits_value 0 (drop (length name + 1) tok) else None)"

fun first_some :: "('a \<Rightarrow> 'b option) \<Rightarrow> 'a list \<Rightarrow> 'b option" where
  "first_some f [] = None"
| "first_some f (x # xs) = (case f x of Some y \<Rightarrow> Some y | None \<Rightarrow> first_some f xs)"

definition parseCacheControl :: "string \<Rightarrow> directives" where
  "parseCacheControl header =
     (let toks = map trim (split_on CHR '','' header)
      in \<lparr> d_maxAge = first_some (seconds_of ''max-age'') toks,
           d_staleWhileRevalidate = first_some (seconds_of ''stale-while-revalidate'') toks,
           noStore = (''no-store'' \<in> set toks),
           noCache = (''no-cache'' \<in> set toks),
           mustRevalidate = (''must-revalidate'' \<in> set toks) \<rparr>)"

definition freshnessPolicy :: "policy \<Rightarrow> directives option \<Rightarrow> (nat option \<times> nat) option" where
  \<comment> \<open>\<open>None\<close>: do not cache; otherwise the effective pair (maxAge, staleWhileRevalidate)\<close>
  "freshnessPolicy p d =
     (case d of
        None \<Rightarrow> Some (maxAge p, staleWhileRevalidate p)
      | Some ds \<Rightarrow>
          if noStore ds \<or> noCache ds \<or> mustRevalidate ds then None
          else Some (case d_maxAge ds of Some m \<Rightarrow> Some m | None \<Rightarrow> maxAge p,
                     case d_staleWhileRevalidate ds of
                       Some s \<Rightarrow> s | None \<Rightarrow> staleWhileRevalidate p))"

definition before :: "nat \<Rightarrow> nat option \<Rightarrow> bool" where
  "before now t = (case t of None \<Rightarrow> True | Some u \<Rightarrow> now < u)"

definition store_get :: "nat \<Rightarrow> jsval \<Rightarrow> 'v store \<Rightarrow> 'v entry option" where
  \<comment> \<open>\<open>get(key)\<close>: an entry past \<open>staleUntil\<close> is ignored\<close>
  "store_get now k s =
     (case map_of s k of
        None \<Rightarrow> None
      | Some e \<Rightarrow> if before now (staleUntil e) then Some e else None)"

definition isStale :: "nat \<Rightarrow> jsval \<Rightarrow> 'v store \<Rightarrow> bool" where
  "isStale now k s =
     (case store_get now k s of None \<Rightarrow> False | Some e \<Rightarrow> \<not> before now (expiresAt e))"

definition without :: "jsval \<Rightarrow> 'v store \<Rightarrow> 'v store" where
  "without k s = filter (\<lambda>ke. fst ke \<noteq> k) s"

definition touch :: "jsval \<Rightarrow> 'v store \<Rightarrow> 'v store" where
  \<comment> \<open>a read makes the entry the most recently used one\<close>
  "touch k s = (case map_of s k of None \<Rightarrow> s | Some e \<Rightarrow> (k, e) # without k s)"

definition store_set ::
  "policy \<Rightarrow> nat \<Rightarrow> jsval \<Rightarrow> 'v \<Rightarrow> directives option \<Rightarrow> 'v store \<Rightarrow> 'v store" where
  "store_set p now k v d s =
     (case freshnessPolicy p d of
        None \<Rightarrow> without k s
      | Some (age, swr) \<Rightarrow>
          (let expires = map_option (\<lambda>a. now + a) age;
               e = \<lparr> e_value = v, expiresAt = expires,
                     staleUntil = map_option (\<lambda>t. t + swr) expires \<rparr>;
               s' = (k, e) # without k s
           in case maxSize p of None \<Rightarrow> s' | Some n \<Rightarrow> take n s'))"

definition wrap ::
  "policy \<Rightarrow> nat \<Rightarrow> jsval \<Rightarrow> ('v \<times> string option) io \<Rightarrow>
     'v store \<times> event list \<Rightarrow> (error + 'v) \<times> 'v store \<times> event list" where
  \<comment> \<open>the spec's readThrough: a usable entry is returned at once, and refreshed when it is
      stale (a failed refresh is not this call's error); otherwise the loader runs, a
      success is stored with the freshness of its cache-control value, a failure is not\<close>
  "wrap p now k loader sl =
     (case sl of (s, lg) \<Rightarrow>
       (case store_get now k s of
          Some e \<Rightarrow>
            if before now (expiresAt e) then (Inr (e_value e), touch k s, lg)
            else (case loader lg of
                    (Inl err, lg') \<Rightarrow> (Inr (e_value e), touch k s, lg')
                  | (Inr (v, cc), lg') \<Rightarrow>
                      (Inr (e_value e),
                       store_set p now k v (map_option parseCacheControl cc) s, lg'))
        | None \<Rightarrow>
            (case loader lg of
               (Inl err, lg') \<Rightarrow> (Inl err, s, lg')
             | (Inr (v, cc), lg') \<Rightarrow>
                 (Inr v, store_set p now k v (map_option parseCacheControl cc) s, lg'))))"

definition plain :: "'a io \<Rightarrow> ('a \<times> string option) io" where
  \<comment> \<open>a loader whose callback carries no cache-control value\<close>
  "plain f lg = (case f lg of (Inl e, lg') \<Rightarrow> (Inl e, lg') | (Inr v, lg') \<Rightarrow> (Inr (v, None), lg'))"

definition forever :: policy where
  \<comment> \<open>the store of local resources: entries never expire and are never evicted\<close>
  "forever = \<lparr> maxAge = None, staleWhileRevalidate = 0, maxSize = None \<rparr>"

section \<open>The view engine\<close>

record inst =
  layout :: jsval
  placeholder :: jsval
  helpers :: jsval
  partialsDir :: jsval
  cachePolicy :: policy

record state =
  objects :: heap
  cache :: "template store"
  cacheForever :: "cval store"
  trace :: "event list"

definition own_prop :: "obj \<Rightarrow> string \<Rightarrow> jsval" where
  "own_prop ob k = (case ob k of Some v \<Rightarrow> v | None \<Rightarrow> Undefined)"

definition seconds :: "jsval \<Rightarrow> nat option \<Rightarrow> nat option" where
  "seconds v dflt = (case v of Num n \<Rightarrow> Some (nat n) | _ \<Rightarrow> dflt)"

text \<open>
  The constructor, in the stale-lru-cache variant. \<open>options\<close> holds the properties of the
  options object (empty when none is given). The defaults that the cache library fills in
  for an undefined \<open>maxAge\<close>, \<open>staleWhileRevalidate\<close> and \<open>maxSize\<close> are the spec's: 60
  seconds, 0 seconds, unbounded.
\<close>

definition RemoteHandlebars :: "obj \<Rightarrow> inst" where
  "RemoteHandlebars options =
     \<lparr> layout = (case options ''layout'' of Some v \<Rightarrow> v | None \<Rightarrow> Bool False),
       placeholder = js_or (own_prop options ''placeholder'') (Str ''content''),
       helpers = own_prop options ''helpers'',
       partialsDir = js_or (own_prop options ''partialsDir'') (Str ''views/partials/''),
       cachePolicy =
         \<lparr> maxAge = seconds (own_prop options ''maxAge'') (Some 60),
           staleWhileRevalidate =
             (case seconds (own_prop options ''staleWhileRevalidate'') None of
                Some s \<Rightarrow> s | None \<Rightarrow> 0),
           maxSize =
             seconds (js_or (js_or (own_prop options ''size'') (own_prop options ''max''))
                            (own_prop options ''maxSize'')) None \<rparr> \<rparr>"

text \<open>
  The constructor, in the cache-manager variant (\<open>index.js\<close>): a time to live of
  \<open>options.maxAge\<close>, 60 seconds when the key is absent, and no stale window. (A store passed
  in as \<open>options.cache\<close> is not modelled.)
\<close>

definition RemoteHandlebars_cm :: "obj \<Rightarrow> inst" where
  "RemoteHandlebars_cm options =
     \<lparr> layout = (case options ''layout'' of Some v \<Rightarrow> v | None \<Rightarrow> Bool False),
       placeholder = js_or (own_prop options ''placeholder'') (Str ''content''),
       helpers = own_prop options ''helpers'',
       partialsDir = js_or (own_prop options ''partialsDir'') (Str ''views/partials/''),
       cachePolicy =
         \<lparr> maxAge = (case options ''maxAge'' of Some v \<Rightarrow> seconds v None | None \<Rightarrow> Some 60),
           staleWhileRevalidate = 0,
           maxSize = (case options ''size'' of Some v \<Rightarrow> seconds v None | None \<Rightarrow> None) \<rparr> \<rparr>"

subsection \<open>Fetching a remote template\<close>

definition requestTemplate :: "world \<Rightarrow> heap \<Rightarrow> nat \<Rightarrow> (template \<times> string option) io" where
  "requestTemplate w h url lg =
     (let lg' = lg @ [Requested (get_prop h (Ref url) ''url'')]
      in case request w lg h url of
           Inl e \<Rightarrow> (Inl e, lg')
         | Inr resp \<Rightarrow>
             if statusCode resp \<ge> 400 then (Inl (HttpStatus (statusCode resp)), lg')
             else (Inr (compile (body resp), headers resp ''cache-control''), lg'))"

definition requestTemplate_cm :: "world \<Rightarrow> heap \<Rightarrow> nat \<Rightarrow> template io" where
  \<comment> \<open>\<open>index.js\<close>: no look at the status code, no cache-control value\<close>
  "requestTemplate_cm w h url lg =
     (let lg' = lg @ [Requested (get_prop h (Ref url) ''url'')]
      in case request w lg h url of
           Inl e \<Rightarrow> (Inl e, lg')
         | Inr resp \<Rightarrow> (Inr (compile (body resp)), lg'))"

definition accept :: string where
  "accept = ''text/x-handlebars-template''"

definition set_accept :: "heap \<Rightarrow> nat \<Rightarrow> error + nat \<times> heap" where
  \<comment> \<open>\<open>url.headers || (url.headers = {}); url.headers['Accept'] = ...\<close>; in strict mode a
      write to a property of a primitive throws\<close>
  "set_accept h a =
     (case get_prop h (Ref a) ''headers'' of
        Ref b \<Rightarrow> if b < length h then Inr (a, set_prop h b ''Accept'' (Str accept))
                 else Inl IllTyped
      | Strs xs \<Rightarrow> Inl IllTyped
      | Fun t \<Rightarrow> Inl IllTyped
      | Callback \<Rightarrow> Inl IllTyped
      | v \<Rightarrow> if truthy v then Inl TypeError
             else (case new_object h Map.empty of
                     (b, h1) \<Rightarrow>
                       Inr (a, set_prop (set_prop h1 a ''headers'' (Ref b)) b
                                 ''Accept'' (Str accept))))"

definition ensure_accept :: "heap \<Rightarrow> jsval \<Rightarrow> error + nat \<times> heap" where
  \<comment> \<open>\<open>if (typeof url === 'string') url = {url: url}\<close>, then the Accept header\<close>
  "ensure_accept h url =
     (case url of
        Str s \<Rightarrow> (case new_object h (Map.empty(''url'' \<mapsto> Str s)) of (a, h1) \<Rightarrow> set_accept h1 a)
      | Ref a \<Rightarrow> if a < length h then set_accept h a else Inl IllTyped
      | Num n \<Rightarrow> Inl TypeError
      | Bool b \<Rightarrow> Inl TypeError
      | _ \<Rightarrow> Inl IllTyped)"

definition cache_option :: "heap \<Rightarrow> jsval \<Rightarrow> jsval" where
  \<comment> \<open>\<open>options || (options = {})\<close>, then \<open>options.cache\<close>\<close>
  "cache_option h options = (if truthy options then get_prop h options ''cache'' else Undefined)"

definition getLayout ::
  "world \<Rightarrow> inst \<Rightarrow> nat \<Rightarrow> jsval \<Rightarrow> jsval \<Rightarrow> jsval \<Rightarrow> state \<Rightarrow> template outcome \<times> state" where
  "getLayout w this now url0 options0 callback0 st =
     (case (if is_function options0 then (url0, Null, options0)
            else if is_function url0 then (Null, Null, url0)
            else (url0, options0, callback0)) of
        (url1, options, callback) \<Rightarrow>
          (let url = js_or url1 (layout this)
           in if \<not> truthy url then (Throws ExpectsUrl, st)
              else if \<not> truthy callback then (Throws ExpectsLayoutCallback, st)
              else (case ensure_accept (objects st) url of
                      Inl e \<Rightarrow> (Throws e, st)
                    | Inr (a, h) \<Rightarrow>
                        if cache_option h options = Bool False then
                          (case requestTemplate w h a (trace st) of
                             (r, lg) \<Rightarrow>
                               (completed (map_sum id fst r), st\<lparr>objects := h, trace := lg\<rparr>))
                        else
                          (case wrap (cachePolicy this) now (get_prop h (Ref a) ''url'')
                                  (requestTemplate w h a) (cache st, trace st) of
                             (r, c, lg) \<Rightarrow>
                               (completed r, st\<lparr>objects := h, cache := c, trace := lg\<rparr>)))))"

definition getLayout_cm ::
  "world \<Rightarrow> inst \<Rightarrow> nat \<Rightarrow> jsval \<Rightarrow> jsval \<Rightarrow> jsval \<Rightarrow> state \<Rightarrow> template outcome \<times> state" where
  "getLayout_cm w this now url0 options0 callback0 st =
     (case (if is_function options0 then (url0, Null, options0)
            else if is_function url0 then (Null, Null, url0)
            else (url0, options0, callback0)) of
        (url1, options, callback) \<Rightarrow>
          (let url = js_or url1 (layout this)
           in if \<not> truthy url then (Throws ExpectsUrl, st)
              else if \<not> truthy callback then (Throws ExpectsLayoutCallback, st)
              else (case ensure_accept (objects st) url of
                      Inl e \<Rightarrow> (Throws e, st)
                    | Inr (a, h) \<Rightarrow>
                        if cache_option h options = Bool False then
                          (case requestTemplate_cm w h a (trace st) of
                             (r, lg) \<Rightarrow> (completed r, st\<lparr>objects := h, trace := lg\<rparr>))
                        else
                          (case wrap (cachePolicy this) now (get_prop h (Ref a) ''url'')
                                  (plain (requestTemplate_cm w h a)) (cache st, trace st) of
                             (r, c, lg) \<Rightarrow>
                               (completed r, st\<lparr>objects := h, cache := c, trace := lg\<rparr>)))))"

subsection \<open>Reading a local view\<close>

text \<open>
  \<open>getView\<close>, \<open>getPartials\<close>, \<open>readTemplate\<close> and \<open>findTemplates\<close> read the same in both
  variants of the sources (the loader is bound with \<open>bind\<close> in one and wrapped in a closure
  in the other), so each has one definition here.
\<close>

definition getView ::
  "world \<Rightarrow> inst \<Rightarrow> nat \<Rightarrow> jsval \<Rightarrow> jsval \<Rightarrow> jsval \<Rightarrow> state \<Rightarrow> cval outcome \<times> state" where
  "getView w this now filePath0 options0 callback0 st =
     (case (if is_function options0 then (Null, options0) else (options0, callback0)) of
        (options, callback) \<Rightarrow>
          (case filePath0 of
             Str s \<Rightarrow>
               (let filePath = path_resolve (cwd w) [s]
                in if filePath = [] then (Throws ExpectsFilePath, st)
                   else if \<not> truthy callback then (Throws ExpectsViewCallback, st)
                   else if cache_option (objects st) options = Bool False then
                     (case readTemplate w filePath (trace st) of
                        (r, lg) \<Rightarrow> (completed (map_sum id CT r), st\<lparr>trace := lg\<rparr>))
                   else
                     (case wrap forever now (Str filePath)
                             (plain (\<lambda>lg. case readTemplate w filePath lg of
                                             (r, lg') \<Rightarrow> (map_sum id CT r, lg')))
                             (cacheForever st, trace st) of
                        (r, c, lg) \<Rightarrow> (completed r, st\<lparr>cacheForever := c, trace := lg\<rparr>)))
           | _ \<Rightarrow> (Throws TypeError, st)))"

subsection \<open>Resolving the partials\<close>

definition dir_list :: "jsval \<Rightarrow> string list option" where
  \<comment> \<open>\<open>if (typeof partialsDir === 'string') partialsDir = [partialsDir]\<close>; \<open>None\<close> for a
      value that is neither a string nor an array of strings\<close>
  "dir_list dirs = (case dirs of Str s \<Rightarrow> Some [s] | Strs xs \<Rightarrow> Some xs | _ \<Rightarrow> None)"

definition getPartials ::
  "world \<Rightarrow> inst \<Rightarrow> nat \<Rightarrow> jsval \<Rightarrow> jsval \<Rightarrow> jsval \<Rightarrow> state \<Rightarrow> cval outcome \<times> state" where
  "getPartials w this now partialsDir0 options0 callback0 st =
     (case (if is_function options0 then (partialsDir0, Null, options0)
            else if is_function partialsDir0 then (Null, Null, partialsDir0)
            else (partialsDir0, options0, callback0)) of
        (partialsDir1, options, callback) \<Rightarrow>
          (let dirs = js_or partialsDir1 (partialsDir this)
           in if \<not> truthy dirs then (Throws ExpectsPartialsDir, st)
              else if \<not> truthy callback then (Throws ExpectsPartialsCallback, st)
              else (case dir_list dirs of
                      None \<Rightarrow>
                        (Throws (if cache_option (objects st) options = Bool False
                                 then IllTyped else TypeError), st)
                    | Some paths \<Rightarrow>
                        if cache_option (objects st) options = Bool False then
                          (case findTemplates w paths (trace st) of
                             (r, lg) \<Rightarrow> (completed (map_sum id CP r), st\<lparr>trace := lg\<rparr>))
                        else
                          (case wrap forever now (Str (concat paths))
                                  (plain (\<lambda>lg. case findTemplates w paths lg of
                                                  (r, lg') \<Rightarrow> (map_sum id CP r, lg')))
                                  (cacheForever st, trace st) of
                             (r, c, lg) \<Rightarrow>
                               (completed r, st\<lparr>cacheForever := c, trace := lg\<rparr>)))))"

subsection \<open>Rendering\<close>

text \<open>
  \<open>render\<close> builds a task for each of the three branches, runs them with
  \<open>async.parallel\<close> and composes the result in the final callback. The three tasks are
  started in the order view, layout, partials; a task that throws while it is started
  ends the call, and among the tasks that fail the first one in that order supplies the
  error (which task fails first in time is not decided by the sources; the theorems below
  do not depend on it). A task that never calls back leaves the render pending, unless
  another task fails.
\<close>

record tasks =
  t_view :: string
  t_layout :: "jsval option"
  t_partials :: "jsval option"

record results =
  r_view :: cval
  r_layout :: "jsval option"
  r_partials :: "cval option"

definition render_tasks :: "inst \<Rightarrow> heap \<Rightarrow> string \<Rightarrow> nat \<Rightarrow> tasks" where
  "render_tasks this h filePath ctx =
     (let lay = (if has_prop h ctx ''layout'' then get_prop h (Ref ctx) ''layout''
                 else layout this);
          dirs = js_or (get_prop h (Ref ctx) ''partialsDir'') (partialsDir this)
      in \<lparr> t_view = filePath,
           t_layout = (if truthy lay then Some lay else None),
           t_partials = (if truthy dirs then Some dirs else None) \<rparr>)"

fun thrown :: "'a outcome \<Rightarrow> error option" where
  "thrown (Throws e) = Some e"
| "thrown (Fails e) = None"
| "thrown (Returns v) = None"
| "thrown Pending = None"

definition viewTask ::
  "world \<Rightarrow> inst \<Rightarrow> nat \<Rightarrow> string \<Rightarrow> nat \<Rightarrow> state \<Rightarrow> cval outcome \<times> state" where
  "viewTask w this now filePath ctx st = getView w this now (Str filePath) (Ref ctx) Callback st"

definition layoutTask ::
  "world \<Rightarrow> inst \<Rightarrow> nat \<Rightarrow> jsval \<Rightarrow> nat \<Rightarrow> state \<Rightarrow> jsval outcome \<times> state" where
  "layoutTask w this now lay ctx st =
     (if is_function lay then (Returns lay, st)
      else (case getLayout w this now lay (Ref ctx) Callback st of
              (Throws e, st') \<Rightarrow> (Throws e, st')
            | (Fails e, st') \<Rightarrow> (Fails e, st')
            | (Returns t, st') \<Rightarrow> (Returns (Fun t), st')
            | (Pending, st') \<Rightarrow> (Pending, st')))"

definition partialsTask ::
  "world \<Rightarrow> inst \<Rightarrow> nat \<Rightarrow> jsval \<Rightarrow> nat \<Rightarrow> state \<Rightarrow> cval outcome \<times> state" where
  \<comment> \<open>\<open>self.getPartials(partialsDir, options, done)\<close>. When \<open>partialsDir\<close> is a function,
      \<open>getPartials\<close> takes it for its callback and hands the result to it: \<open>done\<close> is never
      called\<close>
  "partialsTask w this now dirs ctx st =
     (case getPartials w this now dirs (Ref ctx) Callback st of
        (r, st') \<Rightarrow> (if is_function dirs \<and> thrown r = None then Pending else r, st'))"

definition join3 ::
  "cval outcome \<Rightarrow> jsval option outcome \<Rightarrow> cval option outcome \<Rightarrow> results outcome" where
  \<comment> \<open>the final callback gets the error of a task that fails, or all the results once every
      task has called back; it is never called when a task stays pending and none fails\<close>
  "join3 ov ol op =
     (case ov of
        Throws e \<Rightarrow> Throws e
      | Fails e \<Rightarrow> Fails e
      | Pending \<Rightarrow>
          (case ol of
             Throws e \<Rightarrow> Throws e
           | Fails e \<Rightarrow> Fails e
           | _ \<Rightarrow> (case op of Throws e \<Rightarrow> Throws e | Fails e \<Rightarrow> Fails e | _ \<Rightarrow> Pending))
      | Returns v \<Rightarrow>
          (case ol of
             Throws e \<Rightarrow> Throws e
           | Fails e \<Rightarrow> Fails e
           | Pending \<Rightarrow>
               (case op of Throws e \<Rightarrow> Throws e | Fails e \<Rightarrow> Fails e | _ \<Rightarrow> Pending)
           | Returns l \<Rightarrow>
               (case op of
                  Throws e \<Rightarrow> Throws e
                | Fails e \<Rightarrow> Fails e
                | Pending \<Rightarrow> Pending
                | Returns p \<Rightarrow> Returns \<lparr> r_view = v, r_layout = l, r_partials = p \<rparr>)))"

fun optional :: "'a outcome \<times> state \<Rightarrow> 'a option outcome \<times> state" where
  "optional (Throws e, st) = (Throws e, st)"
| "optional (Fails e, st) = (Fails e, st)"
| "optional (Returns v, st) = (Returns (Some v), st)"
| "optional (Pending, st) = (Pending, st)"

definition parallel ::
  "world \<Rightarrow> inst \<Rightarrow> nat \<Rightarrow> tasks \<Rightarrow> nat \<Rightarrow> state \<Rightarrow> results outcome \<times> state" where
  "parallel w this now ts ctx st =
     (case viewTask w this now (t_view ts) ctx st of
        (ov, st1) \<Rightarrow>
          (case thrown ov of
             Some e \<Rightarrow> (Throws e, st1)
           | None \<Rightarrow>
               (case (case t_layout ts of
                        None \<Rightarrow> (Returns None, st1)
                      | Some lay \<Rightarrow> optional (layoutTask w this now lay ctx st1)) of
                  (ol, st2) \<Rightarrow>
                    (case thrown ol of
                       Some e \<Rightarrow> (Throws e, st2)
                     | None \<Rightarrow>
                         (case (case t_partials ts of
                                  None \<Rightarrow> (Returns None, st2)
                                | Some dirs \<Rightarrow> optional (partialsTask w this now dirs ctx st2)) of
                            (op, st3) \<Rightarrow>
                              (case thrown op of
                                 Some e \<Rightarrow> (Throws e, st3)
                               | None \<Rightarrow> (join3 ov ol op, st3)))))))"

definition compose ::
  "world \<Rightarrow> jsval \<Rightarrow> jsval \<Rightarrow> nat \<Rightarrow> results outcome \<Rightarrow> state \<Rightarrow> string outcome \<times> state" where
  \<comment> \<open>the final callback of \<open>async.parallel\<close>; \<open>pl\<close> and \<open>hs\<close> are the placeholder and
      the helpers that \<open>render\<close> read before it started the tasks\<close>
  "compose w pl hs ctx res st =
     (case res of
        Throws e \<Rightarrow> (Throws e, st)
      | Fails e \<Rightarrow> (Fails e, st)
      | Pending \<Rightarrow> (Pending, st)
      | Returns r \<Rightarrow>
          (let h = objects st;
               stg = \<lparr> s_helpers = hs, s_partials = r_partials r,
                       s_data = get_prop h (Ref ctx) ''data'' \<rparr>
           in case r_view r of
                CP m \<Rightarrow> (Throws TypeError, st)
              | CT view \<Rightarrow>
                  (let rendered = exec w view h ctx stg
                   in case r_layout r of
                        None \<Rightarrow> (Returns rendered, st)
                      | Some (Fun lay) \<Rightarrow>
                          (case pl of
                             Str key \<Rightarrow>
                               (let h' = set_prop h ctx key (Str rendered)
                                in (Returns (exec w lay h' ctx stg), st\<lparr>objects := h'\<rparr>))
                           | _ \<Rightarrow> (Throws IllTyped, st))
                      | Some _ \<Rightarrow> (Throws IllTyped, st))))"

definition render ::
  "world \<Rightarrow> inst \<Rightarrow> nat \<Rightarrow> string \<Rightarrow> nat \<Rightarrow> state \<Rightarrow> string outcome \<times> state" where
  \<comment> \<open>\<open>options\<close>, which is also the context, is the object at address \<open>ctx\<close>\<close>
  "render w this now filePath ctx st =
     (let h = objects st
      in if \<not> ctx < length h then (Throws IllTyped, st)
         else (let pl = js_or (get_prop h (Ref ctx) ''placeholder'') (placeholder this);
                   hs = js_or (get_prop h (Ref ctx) ''helpers'') (helpers this)
               in case parallel w this now (render_tasks this h filePath ctx) ctx st of
                    (res, st') \<Rightarrow> compose w pl hs ctx res st'))"

text \<open>
  The cache-manager variant (\<open>index.js\<close>): a layout that is a function gets no task and is
  put into the results in the final callback.
\<close>

definition render_tasks_cm :: "inst \<Rightarrow> heap \<Rightarrow> string \<Rightarrow> nat \<Rightarrow> tasks" where
  "render_tasks_cm this h filePath ctx =
     (let lay = (if has_prop h ctx ''layout'' then get_prop h (Ref ctx) ''layout''
                 else layout this);
          dirs = js_or (get_prop h (Ref ctx) ''partialsDir'') (partialsDir this)
      in \<lparr> t_view = filePath,
           t_layout = (if truthy lay \<and> \<not> is_function lay then Some lay else None),
           t_partials = (if truthy dirs then Some dirs else None) \<rparr>)"

definition layoutTask_cm ::
  "world \<Rightarrow> inst \<Rightarrow> nat \<Rightarrow> jsval \<Rightarrow> nat \<Rightarrow> state \<Rightarrow> jsval outcome \<times> state" where
  "layoutTask_cm w this now lay ctx st =
     (case getLayout_cm w this now lay (Ref ctx) Callback st of
        (Throws e, st') \<Rightarrow> (Throws e, st')
      | (Fails e, st') \<Rightarrow> (Fails e, st')
      | (Returns t, st') \<Rightarrow> (Returns (Fun t), st')
      | (Pending, st') \<Rightarrow> (Pending, st'))"

definition parallel_cm ::
  "world \<Rightarrow> inst \<Rightarrow> nat \<Rightarrow> tasks \<Rightarrow> nat \<Rightarrow> state \<Rightarrow> results outcome \<times> state" where
  "parallel_cm w this now ts ctx st =
     (case viewTask w this now (t_view ts) ctx st of
        (ov, st1) \<Rightarrow>
          (case thrown ov of
             Some e \<Rightarrow> (Throws e, st1)
           | None \<Rightarrow>
               (case (case t_layout ts of
                        None \<Rightarrow> (Returns None, st1)
                      | Some lay \<Rightarrow> optional (layoutTask_cm w this now lay ctx st1)) of
                  (ol, st2) \<Rightarrow>
                    (case thrown ol of
                       Some e \<Rightarrow> (Throws e, st2)
                     | None \<Rightarrow>
                         (case (case t_partials ts of
                                  None \<Rightarrow> (Returns None, st2)
                                | Some dirs \<Rightarrow> optional (partialsTask w this now dirs ctx st2)) of
                            (op, st3) \<Rightarrow>
                              (case thrown op of
                                 Some e \<Rightarrow> (Throws e, st3)
                               | None \<Rightarrow> (join3 ov ol op, st3)))))))"

fun with_layout :: "jsval \<Rightarrow> results outcome \<Rightarrow> results outcome" where
  \<comment> \<open>\<open>if (typeof layout === 'function') results.layout = layout\<close>\<close>
  "with_layout lay (Returns r) =
     Returns (if is_function lay then r\<lparr>r_layout := Some lay\<rparr> else r)"
| "with_layout lay (Fails e) = Fails e"
| "with_layout lay (Throws e) = Throws e"
| "with_layout lay Pending = Pending"

definition render_cm ::
  "world \<Rightarrow> inst \<Rightarrow> nat \<Rightarrow> string \<Rightarrow> nat \<Rightarrow> state \<Rightarrow> string outcome \<times> state" where
  "render_cm w this now filePath ctx st =
     (let h = objects st
      in if \<not> ctx < length h then (Throws IllTyped, st)
         else (let lay = (if has_prop h ctx ''layout'' then get_prop h (Ref ctx) ''layout''
                          else layout this);
                   pl = js_or (get_prop h (Ref ctx) ''placeholder'') (placeholder this);
                   hs = js_or (get_prop h (Ref ctx) ''helpers'') (helpers this)
               in case parallel_cm w this now (render_tasks_cm this h filePath ctx) ctx st of
                    (res, st') \<Rightarrow> compose w pl hs ctx (with_layout lay res) st'))"

section \<open>A concrete site\<close>

text \<open>
  A small world on which the theorems are exercised: three remote layouts (one plain, one
  that forbids caching, one that answers 404), a view, and several directories of
  partials. Its toy engine renders a template as its source text followed by the strings
  that the context holds under \<open>content\<close> and \<open>body\<close>.
\<close>

definition layouts :: "string \<Rightarrow> response option" where
  "layouts u =
     (if u = ''http://mocked/layouts/default''
        then Some \<lparr> statusCode = 200, headers = Map.empty, body = ''<body>'' \<rparr>
      else if u = ''http://mocked/layouts/uncached''
        then Some \<lparr> statusCode = 200,
                    headers = Map.empty(''cache-control'' \<mapsto>
                                ''no-cache, no-store, must-revalidate''),
                    body = ''<body>'' \<rparr>
      else if u = ''http://mocked/layouts/error''
        then Some \<lparr> statusCode = 404, headers = Map.empty, body = ''Not Found'' \<rparr>
      else None)"

definition files :: "(string \<times> string) list" where
  "files =
     [(''/srv/views/index.handlebars'', ''<article>''),
      (''/srv/views/x.hbs'', ''A''),
      (''/srv/views/partials/x.hbs'', ''P''),
      (''/partials/x.hbs'', ''B''),
      (''/p/x.hbs'', ''1''),
      (''/p/p/x.hbs'', ''2'')]"

definition listing :: "(string \<times> string list) list" where
  "listing =
     [(''/srv/views'', [''index.handlebars'', ''x.hbs'', ''partials/x.hbs'']),
      (''/srv/views/partials'', [''x.hbs'']),
      (''views/partials/'', [''x.hbs'']),
      (''/partials'', [''x.hbs'']),
      (''/p'', [''x.hbs'', ''p/x.hbs'']),
      (''/p/p'', [''x.hbs''])]"

definition text_of :: "jsval \<Rightarrow> string" where
  "text_of v = (case v of Str s \<Rightarrow> s | _ \<Rightarrow> [])"

definition demo :: world where
  "demo =
     \<lparr> cwd = ''/srv'',
       request = (\<lambda>lg h a. case get_prop h (Ref a) ''url'' of
                              Str u \<Rightarrow> (case layouts u of Some r \<Rightarrow> Inr r
                                         | None \<Rightarrow> Inl (External ''ENOTFOUND''))
                            | _ \<Rightarrow> Inl (External ''EINVAL'')),
       readFile = (\<lambda>lg p. case map_of files p of Some c \<Rightarrow> Inr c
                            | None \<Rightarrow> Inl (External ''ENOENT'')),
       glob = (\<lambda>lg d. case map_of listing d of Some fs \<Rightarrow> Inr fs | None \<Rightarrow> Inr []),
       exec = (\<lambda>t h ctx stg. case t of Compiled src \<Rightarrow>
                 src @ text_of (get_prop h (Ref ctx) ''content'')
                     @ text_of (get_prop h (Ref ctx) ''body'')) \<rparr>"

definition start :: "obj \<Rightarrow> state" where
  \<comment> \<open>empty stores, and one object: the options of the call\<close>
  "start ctx = \<lparr> objects = [ctx], cache = [], cacheForever = [], trace = [] \<rparr>"

definition described :: state where
  \<comment> \<open>an options object, a request descriptor with a timeout, and its headers\<close>
  "described =
     \<lparr> objects =
         [Map.empty,
          Map.empty(''url'' \<mapsto> Str ''http://mocked/layouts/default'', ''timeout'' \<mapsto> Num 5,
                    ''headers'' \<mapsto> Ref 2),
          Map.empty(''Accept'' \<mapsto> Str ''text/html'', ''X-Token'' \<mapsto> Str ''t'')],
       cache = [], cacheForever = [], trace = [] \<rparr>"

definition returned_template :: "cval outcome \<Rightarrow> template option" where
  \<comment> \<open>what a callback of \<open>getView\<close> received, when it is a compiled template\<close>
  "returned_template r = (case r of Returns (CT t) \<Rightarrow> Some t | _ \<Rightarrow> None)"

definition returned_partial :: "cval outcome \<Rightarrow> string \<Rightarrow> template option" where
  \<comment> \<open>the entry for a name in the partials that a callback of \<open>getPartials\<close> received\<close>
  "returned_partial r x = (case r of Returns (CP m) \<Rightarrow> m x | _ \<Rightarrow> None)"

definition plain_site :: inst where
  \<comment> \<open>an instance with a remote layout whose partials directory was cleared afterwards\<close>
  "plain_site =
     (RemoteHandlebars (Map.empty(''layout'' \<mapsto> Str ''http://mocked/layouts/default'')))
       \<lparr>partialsDir := Null\<rparr>"

definition never_expire :: "'v store \<Rightarrow> bool" where
  \<comment> \<open>what holds of the forever store: no entry has an expiry or an end of its stale window\<close>
  "never_expire s = list_all (\<lambda>ke. expiresAt (snd ke) = None \<and> staleUntil (snd ke) = None) s"

section \<open>Basic facts\<close>

lemmas run_defs =
  js_or_def get_prop_def has_prop_def set_prop_def new_object_def path_resolve_def
  normalizeString_def compile_def readTemplate_def ends_with_def partial_name_def
  findTemplates_def trim_def digit_of_def seconds_of_def parseCacheControl_def
  freshnessPolicy_def before_def store_get_def without_def touch_def store_set_def wrap_def
  plain_def forever_def own_prop_def seconds_def RemoteHandlebars_def RemoteHandlebars_cm_def
  requestTemplate_def requestTemplate_cm_def accept_def set_accept_def ensure_accept_def
  cache_option_def getLayout_def getLayout_cm_def getView_def dir_list_def getPartials_def
  render_tasks_def viewTask_def layoutTask_def partialsTask_def join3_def parallel_def
  compose_def render_def render_tasks_cm_def layoutTask_cm_def parallel_cm_def render_cm_def
  layouts_def files_def listing_def text_of_def demo_def start_def described_def Let_def

lemma completed_not_Throws [simp]: "completed r \<noteq> Throws e"
  by (cases r) simp_all

lemma thrown_completed [simp]: "thrown (completed r) = None"
  by (cases r) simp_all

lemma partialsTask_snd:
  "snd (partialsTask w this now dirs ctx st) =
     snd (getPartials w this now dirs (Ref ctx) Callback st)"
  by (simp add: partialsTask_def split: prod.splits)

lemma partialsTask_plain:
  "\<not> is_function dirs \<Longrightarrow>
     partialsTask w this now dirs ctx st = getPartials w this now dirs (Ref ctx) Callback st"
  by (simp add: partialsTask_def split: prod.splits)

lemma path_resolve_nonempty: "path_resolve wd args \<noteq> []"
  by (simp add: path_resolve_def Let_def split: prod.splits)

section \<open>The file path guard of getView\<close>

lemma path_resolve_absolute:
  assumes "wd \<noteq> []" and "hd wd = CHR ''/''"
  shows "hd (path_resolve wd [s]) = CHR ''/''"
  using assms by (simp add: path_resolve_def Let_def)

text \<open>
  Claim C10. For every string \<open>filePath\<close>, the empty string included, \<open>getView\<close> never
  throws its "expects filePath" error: the path is resolved before the guard, and a
  resolved path is never empty (it starts with a slash, or is a non-empty relative path,
  or is a single dot), whatever the options, the callback and the state are. Against an
  absolute working directory, which is what a process has, the resolved path is absolute.
\<close>

theorem getView_never_expects_filePath:
  "path_resolve (cwd w) [s] \<noteq> [] \<and>
   (cwd w \<noteq> [] \<and> hd (cwd w) = CHR ''/'' \<longrightarrow> hd (path_resolve (cwd w) [s]) = CHR ''/'') \<and>
   fst (getView w this now (Str s) options callback st) \<noteq> Throws ExpectsFilePath"
  by (simp add: getView_def Let_def path_resolve_nonempty path_resolve_absolute
      split: prod.splits if_splits)

theorem getView_never_expects_filePath_witness:
  "cwd demo \<noteq> [] \<and> hd (cwd demo) = CHR ''/'' \<and>
   path_resolve (cwd demo) [''''] = ''/srv'' \<and>
   hd (path_resolve (cwd demo) ['''']) = CHR ''/'' \<and>
   fst (getView demo (RemoteHandlebars Map.empty) 0 (Str '''') Undefined Undefined
          (start Map.empty)) = Throws ExpectsViewCallback \<and>
   fst (getView demo (RemoteHandlebars Map.empty) 0 (Str '''') Undefined Undefined
          (start Map.empty)) \<noteq> Throws ExpectsFilePath"
  using getView_never_expects_filePath
    [of demo "''''" "RemoteHandlebars Map.empty" 0 Undefined Undefined "start Map.empty"]
  by (simp add: getView_def Let_def path_resolve_def normalizeString_def demo_def)

section \<open>The Accept header of a request descriptor\<close>

lemma is_function_truthy: "is_function v \<Longrightarrow> truthy v"
  by (cases v) simp_all

lemma set_accept_object:
  "get_prop h (Ref a) ''headers'' = Ref b \<Longrightarrow> b < length h \<Longrightarrow>
   set_accept h a = Inr (a, set_prop h b ''Accept'' (Str accept))"
  by (simp add: set_accept_def)

lemma set_accept_absent:
  "\<not> truthy (get_prop h (Ref a) ''headers'') \<Longrightarrow>
   set_accept h a =
     Inr (a, set_prop (set_prop (h @ [Map.empty]) a ''headers'' (Ref (length h)))
               (length h) ''Accept'' (Str accept))"
  by (cases "get_prop h (Ref a) ''headers''") (simp_all add: set_accept_def new_object_def)

lemma getLayout_objects:
  assumes "a < length (objects st)" and "is_function options \<or> truthy callback"
    and "set_accept (objects st) a = Inr (a', h')"
  shows "objects (snd (getLayout w this now (Ref a) options callback st)) = h'"
    and "objects (snd (getLayout_cm w this now (Ref a) options callback st)) = h'"
  using assms
  by (auto simp add: getLayout_def getLayout_cm_def ensure_accept_def js_or_def Let_def
      split: prod.splits if_splits dest: is_function_truthy)

text \<open>
  Claim C9. When \<open>getLayout\<close> (in either variant) is called with a request descriptor, an
  object of the caller at address \<open>a\<close>, together with a callback, it changes that object
  in place: afterwards the descriptor has a headers object whose \<open>Accept\<close> entry is
  \<open>text/x-handlebars-template\<close>, whatever \<open>Accept\<close> held before. Every other field of the
  descriptor is unchanged; headers that existed are the same object with its other entries
  unchanged; and no other object of the caller is touched. The descriptor is well formed:
  its \<open>headers\<close> field is absent (or falsy) or refers to a plain object other than the
  descriptor itself.
\<close>

theorem getLayout_sets_accept_in_place:
  assumes variant: "G = getLayout \<or> G = getLayout_cm"
    and valid: "a < length (objects st)"
    and callback: "is_function options \<or> truthy callback"
    and headers:
      "\<not> truthy (get_prop (objects st) (Ref a) ''headers'') \<or>
       (\<exists>b. get_prop (objects st) (Ref a) ''headers'' = Ref b \<and>
            b < length (objects st) \<and> b \<noteq> a)"
    and after: "h' = objects (snd (G w this now (Ref a) options callback st))"
  shows "get_prop h' (get_prop h' (Ref a) ''headers'') ''Accept'' =
           Str ''text/x-handlebars-template'' \<and>
         (\<forall>k. k \<noteq> ''headers'' \<longrightarrow> (h' ! a) k = (objects st ! a) k) \<and>
         (\<forall>b. get_prop (objects st) (Ref a) ''headers'' = Ref b \<longrightarrow>
              get_prop h' (Ref a) ''headers'' = Ref b \<and>
              (\<forall>k. k \<noteq> ''Accept'' \<longrightarrow> (h' ! b) k = (objects st ! b) k)) \<and>
         (\<forall>c < length (objects st).
              c \<noteq> a \<and> get_prop (objects st) (Ref a) ''headers'' \<noteq> Ref c \<longrightarrow>
              h' ! c = objects st ! c)"
proof -
  let ?h = "objects st"
  from headers show ?thesis
  proof
    assume absent: "\<not> truthy (get_prop ?h (Ref a) ''headers'')"
    let ?n = "length ?h"
    have h': "h' = set_prop (set_prop (?h @ [Map.empty]) a ''headers'' (Ref ?n)) ?n
                     ''Accept'' (Str accept)"
      using variant after getLayout_objects [OF valid callback set_accept_absent [OF absent]]
      by auto
    have noref: "\<And>b. get_prop ?h (Ref a) ''headers'' \<noteq> Ref b"
      using absent by (metis truthy.simps(9))
    show ?thesis
      using valid noref
      by (simp add: h' set_prop_def get_prop_def accept_def nth_append nth_list_update)
  next
    assume "\<exists>b. get_prop ?h (Ref a) ''headers'' = Ref b \<and> b < length ?h \<and> b \<noteq> a"
    then obtain b where b: "get_prop ?h (Ref a) ''headers'' = Ref b" "b < length ?h" "b \<noteq> a"
      by blast
    have h': "h' = set_prop ?h b ''Accept'' (Str accept)"
      using variant after getLayout_objects [OF valid callback set_accept_object [OF b(1,2)]]
      by auto
    have "(?h ! a) ''headers'' = Some (Ref b)"
      using b(1) valid by (auto simp add: get_prop_def split: option.splits)
    then show ?thesis
      using valid b
      by (simp add: h' set_prop_def get_prop_def accept_def nth_list_update)
  qed
qed

theorem getLayout_sets_accept_in_place_witness:
  "1 < length (objects described) \<and> truthy Callback \<and>
   get_prop (objects described) (Ref 1) ''headers'' = Ref 2 \<and>
   get_prop (objects described) (Ref 2) ''Accept'' = Str ''text/html'' \<and>
   (let h' = objects (snd (getLayout demo (RemoteHandlebars Map.empty) 0 (Ref 1) Undefined
                             Callback described))
    in get_prop h' (Ref 2) ''Accept'' = Str ''text/x-handlebars-template'' \<and>
       get_prop h' (Ref 2) ''X-Token'' = Str ''t'' \<and>
       get_prop h' (Ref 1) ''headers'' = Ref 2 \<and>
       get_prop h' (Ref 1) ''timeout'' = Num 5 \<and>
       get_prop h' (Ref 1) ''url'' = Str ''http://mocked/layouts/default'')"
  using getLayout_sets_accept_in_place
    [where G = getLayout and a = 1 and st = described and options = Undefined
       and callback = Callback and w = demo and this = "RemoteHandlebars Map.empty"
       and now = 0, OF _ _ _ _ refl]
  by (simp add: run_defs)

section \<open>Calls with caching disabled\<close>

lemma cache_flag_set_accept:
  "set_accept h a = Inr (a', h') \<Longrightarrow> a < length h \<Longrightarrow>
   get_prop h' v ''cache'' = get_prop h v ''cache''"
  by (cases "get_prop h (Ref a) ''headers''")
     (auto simp add: set_accept_def new_object_def set_prop_def get_prop_def nth_append
        nth_list_update split: if_splits jsval.splits option.splits)

lemma cache_flag_ensure_accept:
  assumes "ensure_accept h url = Inr (a, h')"
  shows "get_prop h' v ''cache'' = get_prop h v ''cache''"
proof (cases url)
  case (Str s)
  let ?h1 = "h @ [Map.empty(''url'' \<mapsto> Str s)]"
  from assms Str have "set_accept ?h1 (length h) = Inr (a, h')"
    by (simp add: ensure_accept_def new_object_def)
  then have "get_prop h' v ''cache'' = get_prop ?h1 v ''cache''"
    by (rule cache_flag_set_accept) simp
  also have "\<dots> = get_prop h v ''cache''"
    by (auto simp add: get_prop_def nth_append split: jsval.splits)
  finally show ?thesis .
next
  case (Ref b)
  with assms show ?thesis
    by (auto simp add: ensure_accept_def split: if_splits dest: cache_flag_set_accept)
qed (use assms in \<open>simp_all add: ensure_accept_def\<close>)


lemma readTemplate_trace: "snd (readTemplate w p lg) = lg @ [ReadFile p]"
  by (simp add: readTemplate_def split: sum.splits)

lemma requestTemplate_trace:
  "snd (requestTemplate w h a lg) = lg @ [Requested (get_prop h (Ref a) ''url'')]"
  "snd (requestTemplate_cm w h a lg) = lg @ [Requested (get_prop h (Ref a) ''url'')]"
  by (simp_all add: requestTemplate_def requestTemplate_cm_def Let_def split: sum.splits)

lemma requestTemplate_traceD:
  "requestTemplate w h a lg = (r, lg') \<Longrightarrow> lg' = lg @ [Requested (get_prop h (Ref a) ''url'')]"
  "requestTemplate_cm w h a lg = (r', lg') \<Longrightarrow> lg' = lg @ [Requested (get_prop h (Ref a) ''url'')]"
  using requestTemplate_trace [of w h a lg] by simp_all

lemma readTemplate_traceD:
  "readTemplate w p lg = (r, lg') \<Longrightarrow> lg' = lg @ [ReadFile p]"
  using readTemplate_trace [of w p lg] by simp





lemma ensure_accept_string:
  "ensure_accept h (Str s) =
     Inr (length h,
          set_prop (set_prop (h @ [Map.empty(''url'' \<mapsto> Str s), Map.empty]) (length h)
                      ''headers'' (Ref (Suc (length h))))
            (Suc (length h)) ''Accept'' (Str accept))"
  by (simp add: ensure_accept_def new_object_def set_accept_def get_prop_def)

lemma ensure_accept_string_url:
  "ensure_accept h (Str s) = Inr (a, h') \<Longrightarrow> get_prop h' (Ref a) ''url'' = Str s"
  by (auto simp add: ensure_accept_string set_prop_def get_prop_def nth_append)




lemma set_accept_descriptor:
  assumes d: "d < length h"
    and hd: "\<not> truthy (get_prop h (Ref d) ''headers'') \<or>
             (\<exists>b. get_prop h (Ref d) ''headers'' = Ref b \<and> b < length h)"
  shows "\<exists>h'. set_accept h d = Inr (d, h') \<and>
              get_prop h' (Ref d) ''url'' = get_prop h (Ref d) ''url''"
  using hd
proof
  assume a: "\<not> truthy (get_prop h (Ref d) ''headers'')"
  show ?thesis
    using d by (simp add: set_accept_absent [OF a] set_prop_def get_prop_def nth_append
                  nth_list_update)
next
  assume "\<exists>b. get_prop h (Ref d) ''headers'' = Ref b \<and> b < length h"
  then obtain b where b: "get_prop h (Ref d) ''headers'' = Ref b" "b < length h" by blast
  show ?thesis
    using d b(2) by (simp add: set_accept_object [OF b] set_prop_def get_prop_def nth_list_update)
qed








section \<open>What each branch adds to the trace\<close>

lemma wrap_trace:
  "wrap p now k loader (s, lg) = (r, s', lg') \<Longrightarrow> lg' = lg \<or> lg' = snd (loader lg)"
  by (auto simp add: wrap_def split: option.splits prod.splits sum.splits if_splits)

lemma plain_trace: "snd (plain f lg) = snd (f lg)"
  by (simp add: plain_def split: prod.splits sum.splits)

lemma getView_frame:
  "objects (snd (getView w this now fp options callback st)) = objects st \<and>
   cache (snd (getView w this now fp options callback st)) = cache st"
  by (auto simp add: getView_def Let_def split: prod.splits jsval.splits)

lemma getPartials_frame:
  "objects (snd (getPartials w this now dirs options callback st)) = objects st \<and>
   cache (snd (getPartials w this now dirs options callback st)) = cache st"
  by (auto simp add: getPartials_def Let_def split: prod.splits option.splits)

lemma getView_trace:
  "trace (snd (getView w this now fp options callback st)) = trace st \<or>
   (\<exists>p. trace (snd (getView w this now fp options callback st)) = trace st @ [ReadFile p])"
proof (cases fp)
  case (Str s)
  let ?p = "path_resolve (cwd w) [s]"
  let ?ld = "\<lambda>lg. case readTemplate w ?p lg of (r, lg') \<Rightarrow> (map_sum id CT r, lg')"
  have ld: "snd (plain ?ld (trace st)) = trace st @ [ReadFile ?p]"
    by (simp add: plain_trace split: prod.splits) (metis readTemplate_traceD)
  have wr: "\<And>r c lg. wrap forever now (Str ?p) (plain ?ld) (cacheForever st, trace st) = (r, c, lg)
      \<Longrightarrow> lg = trace st \<or> lg = trace st @ [ReadFile ?p]"
    using ld by (metis wrap_trace)
  show ?thesis
    by (auto simp add: Str getView_def Let_def split: prod.splits
        dest: readTemplate_traceD wr)
qed (simp_all add: getView_def split: prod.splits)

lemma getLayout_cases:
  obtains (throws) e where "getLayout w this now url options callback st = (Throws e, st)"
  | (direct) a h r lg u where "requestTemplate w h a (trace st) = (r, lg)"
      "getLayout w this now url options callback st =
         (completed (map_sum id fst r), st\<lparr>objects := h, trace := lg\<rparr>)"
      "ensure_accept (objects st) u = Inr (a, h)"
  | (wrapped) a h r c lg u where
      "wrap (cachePolicy this) now (get_prop h (Ref a) ''url'') (requestTemplate w h a)
         (cache st, trace st) = (r, c, lg)"
      "getLayout w this now url options callback st =
         (completed r, st\<lparr>objects := h, cache := c, trace := lg\<rparr>)"
      "ensure_accept (objects st) u = Inr (a, h)"
proof -
  obtain url1 opts cb where sh:
    "(if is_function options then (url, Null, options)
      else if is_function url then (Null, Null, url)
      else (url, options, callback)) = (url1, opts, cb)"
    by (metis prod_cases3)
  let ?G = "getLayout w this now url options callback st"
  let ?u = "js_or url1 (layout this)"
  consider (nourl) "\<not> truthy ?u" | (nocb) "truthy ?u" "\<not> truthy cb"
    | (ok) "truthy ?u" "truthy cb"
    by blast
  then show thesis
  proof cases
    case nourl
    then have "?G = (Throws ExpectsUrl, st)"
      by (simp add: getLayout_def Let_def sh)
    then show ?thesis by (rule throws)
  next
    case nocb
    then have "?G = (Throws ExpectsLayoutCallback, st)"
      by (simp add: getLayout_def Let_def sh)
    then show ?thesis by (rule throws)
  next
    case ok
    show ?thesis
    proof (cases "ensure_accept (objects st) ?u")
      case (Inl e)
      with ok have "?G = (Throws e, st)"
        by (simp add: getLayout_def Let_def sh)
      then show ?thesis by (rule throws)
    next
      case (Inr ah)
      obtain a h where ah: "ah = (a, h)" by (cases ah)
      show ?thesis
      proof (cases "cache_option h opts = Bool False")
        case True
        obtain r lg where rl: "requestTemplate w h a (trace st) = (r, lg)"
          by (cases "requestTemplate w h a (trace st)")
        with True ok Inr ah
        have "?G = (completed (map_sum id fst r), st\<lparr>objects := h, trace := lg\<rparr>)"
          by (simp add: getLayout_def Let_def sh)
        with rl show ?thesis using Inr ah by (auto intro: direct)
      next
        case False
        obtain r c lg where rl:
          "wrap (cachePolicy this) now (get_prop h (Ref a) ''url'') (requestTemplate w h a)
             (cache st, trace st) = (r, c, lg)"
          by (metis prod_cases3)
        with False ok Inr ah
        have "?G = (completed r, st\<lparr>objects := h, cache := c, trace := lg\<rparr>)"
          by (simp add: getLayout_def Let_def sh)
        with rl show ?thesis using Inr ah by (auto intro: wrapped)
      qed
    qed
  qed
qed

lemma getLayout_cm_cases:
  obtains (throws) e where "getLayout_cm w this now url options callback st = (Throws e, st)"
  | (direct) a h r lg u where "requestTemplate_cm w h a (trace st) = (r, lg)"
      "getLayout_cm w this now url options callback st =
         (completed r, st\<lparr>objects := h, trace := lg\<rparr>)"
      "ensure_accept (objects st) u = Inr (a, h)"
  | (wrapped) a h r c lg u where
      "wrap (cachePolicy this) now (get_prop h (Ref a) ''url'') (plain (requestTemplate_cm w h a))
         (cache st, trace st) = (r, c, lg)"
      "getLayout_cm w this now url options callback st =
         (completed r, st\<lparr>objects := h, cache := c, trace := lg\<rparr>)"
      "ensure_accept (objects st) u = Inr (a, h)"
proof -
  obtain url1 opts cb where sh:
    "(if is_function options then (url, Null, options)
      else if is_function url then (Null, Null, url)
      else (url, options, callback)) = (url1, opts, cb)"
    by (metis prod_cases3)
  let ?G = "getLayout_cm w this now url options callback st"
  let ?u = "js_or url1 (layout this)"
  consider (nourl) "\<not> truthy ?u" | (nocb) "truthy ?u" "\<not> truthy cb"
    | (ok) "truthy ?u" "truthy cb"
    by blast
  then show thesis
  proof cases
    case nourl
    then have "?G = (Throws ExpectsUrl, st)"
      by (simp add: getLayout_cm_def Let_def sh)
    then show ?thesis by (rule throws)
  next
    case nocb
    then have "?G = (Throws ExpectsLayoutCallback, st)"
      by (simp add: getLayout_cm_def Let_def sh)
    then show ?thesis by (rule throws)
  next
    case ok
    show ?thesis
    proof (cases "ensure_accept (objects st) ?u")
      case (Inl e)
      with ok have "?G = (Throws e, st)"
        by (simp add: getLayout_cm_def Let_def sh)
      then show ?thesis by (rule throws)
    next
      case (Inr ah)
      obtain a h where ah: "ah = (a, h)" by (cases ah)
      show ?thesis
      proof (cases "cache_option h opts = Bool False")
        case True
        obtain r lg where rl: "requestTemplate_cm w h a (trace st) = (r, lg)"
          by (cases "requestTemplate_cm w h a (trace st)")
        with True ok Inr ah
        have "?G = (completed r, st\<lparr>objects := h, trace := lg\<rparr>)"
          by (simp add: getLayout_cm_def Let_def sh)
        with rl show ?thesis using Inr ah by (auto intro: direct)
      next
        case False
        obtain r c lg where rl:
          "wrap (cachePolicy this) now (get_prop h (Ref a) ''url'') (plain (requestTemplate_cm w h a))
             (cache st, trace st) = (r, c, lg)"
          by (metis prod_cases3)
        with False ok Inr ah
        have "?G = (completed r, st\<lparr>objects := h, cache := c, trace := lg\<rparr>)"
          by (simp add: getLayout_cm_def Let_def sh)
        with rl show ?thesis using Inr ah by (auto intro: wrapped)
      qed
    qed
  qed
qed

lemma getLayout_trace:
  "trace (snd (getLayout w this now url options callback st)) = trace st \<or>
   (\<exists>u. trace (snd (getLayout w this now url options callback st)) = trace st @ [Requested u])"
proof (cases rule: getLayout_cases [of w this now url options callback st])
  case (throws e) then show ?thesis by simp
next
  case (direct a h r lg) then show ?thesis by (auto dest: requestTemplate_traceD)
next
  case (wrapped a h r c lg)
  from wrap_trace [OF wrapped(1)] show ?thesis
    by (auto simp add: wrapped(2) requestTemplate_trace)
qed

lemma getLayout_cm_trace:
  "trace (snd (getLayout_cm w this now url options callback st)) = trace st \<or>
   (\<exists>u. trace (snd (getLayout_cm w this now url options callback st)) = trace st @ [Requested u])"
proof (cases rule: getLayout_cm_cases [of w this now url options callback st])
  case (throws e) then show ?thesis by simp
next
  case (direct a h r lg) then show ?thesis by (auto dest: requestTemplate_traceD)
next
  case (wrapped a h r c lg)
  from wrap_trace [OF wrapped(1)] show ?thesis
    by (auto simp add: wrapped(2) requestTemplate_trace plain_trace)
qed

lemma getLayout_frame:
  "cacheForever (snd (getLayout w this now url options callback st)) = cacheForever st"
  "cacheForever (snd (getLayout_cm w this now url options callback st)) = cacheForever st"
  by (cases rule: getLayout_cases [of w this now url options callback st]; simp)
     (cases rule: getLayout_cm_cases [of w this now url options callback st]; simp)

lemma compose_trace: "trace (snd (compose w pl hs ctx res st)) = trace st"
  by (auto simp add: compose_def Let_def split: outcome.splits cval.splits option.splits
      jsval.splits)

lemma viewTask_no_glob:
  "Glob d \<in> set (trace (snd (viewTask w this now fp ctx st))) \<Longrightarrow> Glob d \<in> set (trace st)"
  using getView_trace [of w this now "Str fp" "Ref ctx" Callback st]
  by (auto simp add: viewTask_def)

lemma layoutTask_no_glob:
  "Glob d \<in> set (trace (snd (layoutTask w this now lay ctx st))) \<Longrightarrow> Glob d \<in> set (trace st)"
  "Glob d \<in> set (trace (snd (layoutTask_cm w this now lay ctx st))) \<Longrightarrow> Glob d \<in> set (trace st)"
  using getLayout_trace [of w this now lay "Ref ctx" Callback st]
    getLayout_cm_trace [of w this now lay "Ref ctx" Callback st]
  by (auto simp add: layoutTask_def layoutTask_cm_def split: prod.splits outcome.splits if_splits)

lemma optional_snd [simp]: "snd (optional r) = snd r"
  by (cases r rule: optional.cases) simp_all

lemma optional_sndD: "optional r = (ol, s) \<Longrightarrow> s = snd r"
  using optional_snd [of r] by simp

lemma optional_Returns:
  "optional r = (Returns v, s) \<Longrightarrow> v \<noteq> None"
  by (cases r rule: optional.cases) auto

lemma parallel_no_glob:
  assumes "t_partials ts = None"
  shows "Glob d \<in> set (trace (snd (parallel w this now ts ctx st))) \<Longrightarrow> Glob d \<in> set (trace st)"
    and "Glob d \<in> set (trace (snd (parallel_cm w this now ts ctx st))) \<Longrightarrow> Glob d \<in> set (trace st)"
proof -
  obtain ov st1 where v: "viewTask w this now (t_view ts) ctx st = (ov, st1)"
    by (cases "viewTask w this now (t_view ts) ctx st")
  have g1: "Glob d \<in> set (trace st1) \<Longrightarrow> Glob d \<in> set (trace st)"
    using viewTask_no_glob [of d w this now "t_view ts" ctx st] v by simp
  show "Glob d \<in> set (trace (snd (parallel w this now ts ctx st))) \<Longrightarrow> Glob d \<in> set (trace st)"
    using assms g1 layoutTask_no_glob(1) [of d w this now _ ctx st1]
    by (auto simp add: parallel_def v split: option.splits prod.splits dest!: optional_sndD)
  show "Glob d \<in> set (trace (snd (parallel_cm w this now ts ctx st))) \<Longrightarrow> Glob d \<in> set (trace st)"
    using assms g1 layoutTask_no_glob(2) [of d w this now _ ctx st1]
    by (auto simp add: parallel_cm_def v split: option.splits prod.splits dest!: optional_sndD)
qed

lemma parallel_partials_result:
  "parallel w this now ts ctx st = (Returns r, st') \<Longrightarrow>
     (r_partials r \<noteq> None) = (t_partials ts \<noteq> None)"
  "parallel_cm w this now ts ctx st = (Returns r, st') \<Longrightarrow>
     (r_partials r \<noteq> None) = (t_partials ts \<noteq> None)"
  by (auto simp add: parallel_def parallel_cm_def join3_def
      split: prod.splits option.splits outcome.splits dest: optional_Returns)

lemma render_no_glob:
  assumes "\<not> truthy (js_or (get_prop (objects st) (Ref ctx) ''partialsDir'') (partialsDir this))"
  shows "Glob d \<in> set (trace (snd (render w this now filePath ctx st))) \<Longrightarrow>
           Glob d \<in> set (trace st)"
    and "Glob d \<in> set (trace (snd (render_cm w this now filePath ctx st))) \<Longrightarrow>
           Glob d \<in> set (trace st)"
proof -
  have n: "t_partials (render_tasks this (objects st) filePath ctx) = None"
    "t_partials (render_tasks_cm this (objects st) filePath ctx) = None"
    using assms by (simp_all add: render_tasks_def render_tasks_cm_def Let_def)
  show "Glob d \<in> set (trace (snd (render w this now filePath ctx st))) \<Longrightarrow>
           Glob d \<in> set (trace st)"
    using parallel_no_glob(1) [OF n(1), of d w this now ctx st]
    by (auto simp add: render_def Let_def compose_trace split: prod.splits if_splits)
  show "Glob d \<in> set (trace (snd (render_cm w this now filePath ctx st))) \<Longrightarrow>
           Glob d \<in> set (trace st)"
    using parallel_no_glob(2) [OF n(2), of d w this now ctx st]
    by (auto simp add: render_cm_def Let_def compose_trace split: prod.splits if_splits)
qed

section \<open>Rendering without a layout\<close>

lemma each_file_no_request:
  "Requested u \<in> set (snd (each_file w d fs acc lg)) \<Longrightarrow> Requested u \<in> set lg"
proof (induction fs arbitrary: acc lg)
  case Nil
  then show ?case by simp
next
  case (Cons f fs)
  obtain r lg' where rt: "readTemplate w (path_resolve (cwd w) [d, f]) lg = (r, lg')"
    by (cases "readTemplate w (path_resolve (cwd w) [d, f]) lg")
  then have lg': "lg' = lg @ [ReadFile (path_resolve (cwd w) [d, f])]"
    by (rule readTemplate_traceD)
  from Cons.prems rt have "Requested u \<in> set lg'"
    by (cases r) (auto dest: Cons.IH)
  with lg' show ?case by simp
qed

lemma reduce_dirs_no_request:
  "Requested u \<in> set (snd (reduce_dirs w ds t lg)) \<Longrightarrow> Requested u \<in> set lg"
proof (induction ds arbitrary: t lg)
  case Nil
  then show ?case by simp
next
  case (Cons d ds)
  show ?case
  proof (cases "glob w lg d")
    case (Inl e)
    with Cons.prems show ?thesis by simp
  next
    case (Inr fs)
    obtain r lg' where ef: "each_file w d fs (Inr t) (lg @ [Glob d]) = (r, lg')"
      by (cases "each_file w d fs (Inr t) (lg @ [Glob d])")
    have a: "Requested u \<in> set lg' \<Longrightarrow> Requested u \<in> set lg"
      using each_file_no_request [of u w d fs "Inr t" "lg @ [Glob d]"] ef by simp
    from Cons.prems Inr ef show ?thesis
      by (cases r) (auto dest: Cons.IH a)
  qed
qed

lemma findTemplates_no_request:
  "findTemplates w paths lg = (r, lg') \<Longrightarrow> Requested u \<in> set lg' \<Longrightarrow> Requested u \<in> set lg"
  using reduce_dirs_no_request [of u w paths Map.empty lg] by (simp add: findTemplates_def)

lemma getPartials_no_request:
  "Requested u \<in> set (trace (snd (getPartials w this now dirs options callback st))) \<Longrightarrow>
   Requested u \<in> set (trace st)"
proof -
  have ld: "\<And>paths. Requested u \<in> set (snd (plain (\<lambda>lg. case findTemplates w paths lg of
                 (r, lg') \<Rightarrow> (map_sum id CP r, lg')) (trace st))) \<Longrightarrow> Requested u \<in> set (trace st)"
    by (auto simp add: plain_trace split: prod.splits dest: findTemplates_no_request)
  have wr: "\<And>paths r c lg. wrap forever now (Str (concat paths))
             (plain (\<lambda>lg. case findTemplates w paths lg of (r, lg') \<Rightarrow> (map_sum id CP r, lg')))
             (cacheForever st, trace st) = (r, c, lg) \<Longrightarrow> Requested u \<in> set lg \<Longrightarrow>
           Requested u \<in> set (trace st)"
    using ld by (metis wrap_trace)
  have dr: "\<And>paths r lg. findTemplates w paths (trace st) = (r, lg) \<Longrightarrow> Requested u \<in> set lg \<Longrightarrow>
           Requested u \<in> set (trace st)"
    by (rule findTemplates_no_request)
  assume "Requested u \<in> set (trace (snd (getPartials w this now dirs options callback st)))"
  then show ?thesis
    by (auto simp add: getPartials_def Let_def split: prod.splits option.splits if_splits
        dest: wr dr)
qed

lemma getView_no_request:
  "Requested u \<in> set (trace (snd (getView w this now fp options callback st))) \<Longrightarrow>
   Requested u \<in> set (trace st)"
  using getView_trace [of w this now fp options callback st] by auto

lemma viewTask_frame:
  "viewTask w this now fp ctx st = (ov, st1) \<Longrightarrow> objects st1 = objects st \<and> cache st1 = cache st"
  using getView_frame [of w this now "Str fp" "Ref ctx" Callback st] by (simp add: viewTask_def)

lemma viewTask_never_throws: "viewTask w this now fp ctx st = (ov, st1) \<Longrightarrow> thrown ov = None"
  by (auto simp add: viewTask_def getView_def Let_def path_resolve_nonempty
      split: prod.splits if_splits)

lemma partialsTask_frame:
  "partialsTask w this now dirs ctx st = (op, st2) \<Longrightarrow>
   objects st2 = objects st \<and> cache st2 = cache st"
  using getPartials_frame [of w this now dirs "Ref ctx" Callback st]
    partialsTask_snd [of w this now dirs ctx st] by simp

lemma parallel_without_layout:
  assumes "t_layout ts = None"
  shows "parallel w this now ts ctx st =
     (case viewTask w this now (t_view ts) ctx st of
        (ov, st1) \<Rightarrow>
          (case (case t_partials ts of
                   None \<Rightarrow> (Returns None, st1)
                 | Some dirs \<Rightarrow> optional (partialsTask w this now dirs ctx st1)) of
             (op, st2) \<Rightarrow>
               (case thrown op of Some e \<Rightarrow> (Throws e, st2)
                | None \<Rightarrow> (join3 ov (Returns None) op, st2))))"
    and "parallel_cm w this now ts ctx st = parallel w this now ts ctx st"
  using assms
  by (auto simp add: parallel_def parallel_cm_def split: prod.splits
      dest: viewTask_never_throws)

lemma optional_frame:
  "optional r = (op, st2) \<Longrightarrow> st2 = snd r"
  by (cases r rule: optional.cases) auto

text \<open>
  Claim C5. When the layout of a render call is falsy (the options have a \<open>layout\<close> key
  with a falsy value, or have none and the layout of the instance is falsy), then in both
  variants no layout task is built, no request is made, no object is written (so the
  placeholder key never enters the context) and the remote cache is untouched. Whenever
  the render hands back text, that text is the rendering of the view with the untouched
  context; and whenever the view and the partials are resolved, it does hand back that
  text.
\<close>

theorem render_without_layout:
  assumes valid: "ctx < length (objects st)"
    and falsy: "\<not> truthy (if has_prop (objects st) ctx ''layout''
                           then get_prop (objects st) (Ref ctx) ''layout'' else layout this)"
    and variant: "R = render \<or> R = render_cm"
  shows "t_layout (render_tasks this (objects st) filePath ctx) = None \<and>
         t_layout (render_tasks_cm this (objects st) filePath ctx) = None \<and>
         objects (snd (R w this now filePath ctx st)) = objects st \<and>
         cache (snd (R w this now filePath ctx st)) = cache st \<and>
         (\<forall>u. Requested u \<in> set (trace (snd (R w this now filePath ctx st))) \<longrightarrow>
              Requested u \<in> set (trace st)) \<and>
         (\<forall>txt. fst (R w this now filePath ctx st) = Returns txt \<longrightarrow>
            (\<exists>view ps. fst (viewTask w this now filePath ctx st) = Returns (CT view) \<and>
               txt = exec w view (objects st) ctx
                       \<lparr> s_helpers = js_or (get_prop (objects st) (Ref ctx) ''helpers'') (helpers this),
                         s_partials = ps,
                         s_data = get_prop (objects st) (Ref ctx) ''data'' \<rparr>)) \<and>
         (\<forall>view st1 ps st2.
            viewTask w this now filePath ctx st = (Returns (CT view), st1) \<and>
            (case t_partials (render_tasks this (objects st) filePath ctx) of
               None \<Rightarrow> (Returns None, st1)
             | Some dirs \<Rightarrow> optional (partialsTask w this now dirs ctx st1)) = (Returns ps, st2) \<longrightarrow>
            R w this now filePath ctx st =
              (Returns (exec w view (objects st) ctx
                          \<lparr> s_helpers = js_or (get_prop (objects st) (Ref ctx) ''helpers'') (helpers this),
                            s_partials = ps,
                            s_data = get_prop (objects st) (Ref ctx) ''data'' \<rparr>), st2))"
proof -
  let ?ts = "render_tasks this (objects st) filePath ctx"
  let ?lay = "if has_prop (objects st) ctx ''layout''
              then get_prop (objects st) (Ref ctx) ''layout'' else layout this"
  let ?pl = "js_or (get_prop (objects st) (Ref ctx) ''placeholder'') (placeholder this)"
  let ?hs = "js_or (get_prop (objects st) (Ref ctx) ''helpers'') (helpers this)"
  have tl: "t_layout ?ts = None" "render_tasks_cm this (objects st) filePath ctx = ?ts"
    using falsy by (simp_all add: render_tasks_def render_tasks_cm_def Let_def)
  have tv: "t_view ?ts = filePath"
    by (simp add: render_tasks_def Let_def)
  have nf: "\<not> is_function ?lay"
    using falsy is_function_truthy by blast
  obtain ov st1 where v: "viewTask w this now filePath ctx st = (ov, st1)"
    by (cases "viewTask w this now filePath ctx st")
  obtain op st2 where p:
    "(case t_partials ?ts of None \<Rightarrow> (Returns None, st1)
      | Some dirs \<Rightarrow> optional (partialsTask w this now dirs ctx st1)) = (op, st2)"
    by (metis surj_pair)
  let ?res = "case thrown op of Some e \<Rightarrow> Throws e | None \<Rightarrow> join3 ov (Returns None) op"
  have par: "parallel w this now ?ts ctx st = (?res, st2)"
    by (simp add: parallel_without_layout(1) [OF tl(1)] tv v p split: option.splits)
  have wl: "with_layout ?lay ?res = ?res"
    using nf by (cases ?res) simp_all
  have R: "R w this now filePath ctx st = compose w ?pl ?hs ctx ?res st2"
    using variant valid par wl
    by (auto simp add: render_def render_cm_def Let_def tl(2) parallel_without_layout(2) [OF tl(1)])
  have f1: "objects st1 = objects st" "cache st1 = cache st"
    using viewTask_frame [OF v] by simp_all
  have f2: "objects st2 = objects st1 \<and> cache st2 = cache st1"
  proof (cases "t_partials ?ts")
    case None
    with p show ?thesis by simp
  next
    case (Some dirs)
    with p have "st2 = snd (partialsTask w this now dirs ctx st1)"
      by (simp add: optional_frame)
    then show ?thesis
      using partialsTask_frame [of w this now dirs ctx st1] by (metis prod.collapse)
  qed
  have q1: "\<And>u. Requested u \<in> set (trace st1) \<Longrightarrow> Requested u \<in> set (trace st)"
    using getView_no_request [of _ w this now "Str filePath" "Ref ctx" Callback st] v
    by (simp add: viewTask_def)
  have q2: "\<And>u. Requested u \<in> set (trace st2) \<Longrightarrow> Requested u \<in> set (trace st1)"
  proof (cases "t_partials ?ts")
    case None
    with p show "\<And>u. Requested u \<in> set (trace st2) \<Longrightarrow> Requested u \<in> set (trace st1)" by simp
  next
    case (Some dirs)
    with p have "st2 = snd (partialsTask w this now dirs ctx st1)"
      by (simp add: optional_frame)
    then show "\<And>u. Requested u \<in> set (trace st2) \<Longrightarrow> Requested u \<in> set (trace st1)"
      using getPartials_no_request [of _ w this now dirs "Ref ctx" Callback st1]
      by (simp add: partialsTask_snd)
  qed
  have nolay: "\<And>r. ?res = Returns r \<Longrightarrow> r_layout r = None \<and> op = Returns (r_partials r) \<and>
                  ov = Returns (r_view r)"
    by (auto simp add: join3_def split: option.splits outcome.splits)
  have st': "snd (compose w ?pl ?hs ctx ?res st2) = st2"
    using nolay by (cases ?res) (auto simp add: compose_def Let_def split: cval.splits)
  have out: "\<And>txt. fst (compose w ?pl ?hs ctx ?res st2) = Returns txt \<Longrightarrow>
      \<exists>view ps. ov = Returns (CT view) \<and>
        txt = exec w view (objects st) ctx
                \<lparr> s_helpers = ?hs, s_partials = ps, s_data = get_prop (objects st) (Ref ctx) ''data'' \<rparr>"
    using nolay f1 f2
    by (cases ?res) (auto simp add: compose_def Let_def split: cval.splits)
  have fwd: "\<And>view ps. ov = Returns (CT view) \<Longrightarrow> op = Returns ps \<Longrightarrow>
      compose w ?pl ?hs ctx ?res st2 =
        (Returns (exec w view (objects st) ctx
                   \<lparr> s_helpers = ?hs, s_partials = ps, s_data = get_prop (objects st) (Ref ctx) ''data'' \<rparr>), st2)"
    using f1 f2 by (simp add: compose_def Let_def join3_def)
  show ?thesis
    using tl f1 f2 q1 q2 out fwd
    by (auto simp add: R st' v p render_tasks_cm_def Let_def)
qed

theorem render_without_layout_witness:
  "0 < length (objects (start (Map.empty(''layout'' \<mapsto> Bool False)))) \<and>
   \<not> truthy (if has_prop (objects (start (Map.empty(''layout'' \<mapsto> Bool False)))) 0 ''layout''
             then get_prop (objects (start (Map.empty(''layout'' \<mapsto> Bool False)))) (Ref 0) ''layout''
             else layout (RemoteHandlebars
                            (Map.empty(''layout'' \<mapsto> Str ''http://mocked/layouts/default'')))) \<and>
   objects (snd (render demo
                   (RemoteHandlebars (Map.empty(''layout'' \<mapsto> Str ''http://mocked/layouts/default'')))
                   0 ''views/index.handlebars'' 0 (start (Map.empty(''layout'' \<mapsto> Bool False))))) =
     objects (start (Map.empty(''layout'' \<mapsto> Bool False))) \<and>
   fst (render demo
          (RemoteHandlebars (Map.empty(''layout'' \<mapsto> Str ''http://mocked/layouts/default'')))
          0 ''views/index.handlebars'' 0 (start (Map.empty(''layout'' \<mapsto> Bool False)))) =
     Returns ''<article>'' \<and>
   returned_template
     (fst (viewTask demo
             (RemoteHandlebars (Map.empty(''layout'' \<mapsto> Str ''http://mocked/layouts/default'')))
             0 ''views/index.handlebars'' 0 (start (Map.empty(''layout'' \<mapsto> Bool False))))) =
     Some (Compiled ''<article>'') \<and>
   fst (render_cm demo (RemoteHandlebars_cm Map.empty) 0 ''views/index.handlebars'' 0
          (start Map.empty)) = Returns ''<article>''"
  (is "?valid \<and> ?falsy \<and> ?kept \<and> ?e1 \<and> ?e2 \<and> ?e3")
proof -
  have valid: ?valid by (simp add: start_def)
  have falsy: ?falsy by (simp add: start_def has_prop_def get_prop_def)
  note all = render_without_layout
    [OF valid falsy disjI1 [OF refl], where w = demo and now = 0
       and filePath = "''views/index.handlebars''"]
  have kept: ?kept
    by (rule all [THEN conjunct2, THEN conjunct2, THEN conjunct1])
  have e1: ?e1 by code_simp
  have e2: ?e2 by code_simp
  have e3: ?e3 by code_simp
  from valid falsy kept e1 e2 e3 show ?thesis by blast
qed

section \<open>Rendering with a layout\<close>

lemma set_accept_length: "set_accept h a = Inr (a', h') \<Longrightarrow> length h \<le> length h'"
  by (cases "get_prop h (Ref a) ''headers''")
     (auto simp add: set_accept_def new_object_def set_prop_def split: if_splits)

lemma ensure_accept_length: "ensure_accept h u = Inr (a, h') \<Longrightarrow> length h \<le> length h'"
  by (cases u)
     (auto simp add: ensure_accept_def new_object_def split: if_splits dest: set_accept_length)

lemma getLayout_length:
  "length (objects st) \<le> length (objects (snd (getLayout w this now url options callback st)))"
  by (cases rule: getLayout_cases [of w this now url options callback st])
     (auto dest: ensure_accept_length)

lemma getLayout_cm_length:
  "length (objects st) \<le> length (objects (snd (getLayout_cm w this now url options callback st)))"
  by (cases rule: getLayout_cm_cases [of w this now url options callback st])
     (auto dest: ensure_accept_length)

lemma layoutTask_length:
  "layoutTask w this now lay ctx st = (ol, st') \<Longrightarrow> length (objects st) \<le> length (objects st')"
  "layoutTask_cm w this now lay ctx st = (ol, st') \<Longrightarrow> length (objects st) \<le> length (objects st')"
  using getLayout_length [of st w this now lay "Ref ctx" Callback]
    getLayout_cm_length [of st w this now lay "Ref ctx" Callback]
  by (auto simp add: layoutTask_def layoutTask_cm_def split: if_splits prod.splits outcome.splits)

lemma partials_part_frame:
  assumes "(case tp of None \<Rightarrow> (Returns None, st2)
            | Some dirs \<Rightarrow> optional (partialsTask w this now dirs ctx st2)) = (op, st3)"
  shows "objects st3 = objects st2"
proof (cases tp)
  case None
  with assms show ?thesis by simp
next
  case (Some dirs)
  with assms have "st3 = snd (partialsTask w this now dirs ctx st2)"
    by (simp add: optional_frame)
  then show ?thesis
    using partialsTask_frame [of w this now dirs ctx st2] by (metis prod.collapse)
qed

text \<open>
  Claim C4. In a render call in which a layout is resolved (the layout task hands back a
  compiled template \<open>l\<close>, or, in the older variant, the layout is itself such a function),
  the view is run first, on the context as the tasks left it; its text is then written
  into the context under the placeholder key and nothing else is written; and the output
  is the layout run on that same context with the same settings. The key is the \<open>placeholder\<close>
  of the call when that is truthy, else that of the instance, which the constructor sets
  to the one it was given or to \<open>content\<close>.
\<close>

theorem render_with_layout:
  assumes valid: "ctx < length (objects st)"
    and view: "viewTask w this now filePath ctx st = (Returns (CT view), st1)"
    and lay: "(if has_prop (objects st) ctx ''layout''
               then get_prop (objects st) (Ref ctx) ''layout'' else layout this) = lay"
    and truthy: "truthy lay"
    and resolved:
      "R = render \<and> layoutTask w this now lay ctx st1 = (Returns (Fun l), st2) \<or>
       R = render_cm \<and>
         (if is_function lay then (Returns lay, st1) else layoutTask_cm w this now lay ctx st1) =
           (Returns (Fun l), st2)"
    and partials:
      "(case t_partials (render_tasks this (objects st) filePath ctx) of
          None \<Rightarrow> (Returns None, st2)
        | Some dirs \<Rightarrow> optional (partialsTask w this now dirs ctx st2)) = (Returns ps, st3)"
    and key: "js_or (get_prop (objects st) (Ref ctx) ''placeholder'') (placeholder this) = Str key"
    and stg: "stg = \<lparr> s_helpers = js_or (get_prop (objects st) (Ref ctx) ''helpers'') (helpers this),
                      s_partials = ps, s_data = get_prop (objects st3) (Ref ctx) ''data'' \<rparr>"
    and rendered: "rendered = exec w view (objects st3) ctx stg"
    and h': "h' = set_prop (objects st3) ctx key (Str rendered)"
  shows "R w this now filePath ctx st = (Returns (exec w l h' ctx stg), st3\<lparr>objects := h'\<rparr>) \<and>
         get_prop h' (Ref ctx) key = Str rendered \<and>
         (\<forall>k. k \<noteq> key \<longrightarrow> (h' ! ctx) k = (objects st3 ! ctx) k) \<and>
         (\<forall>a. a \<noteq> ctx \<longrightarrow> h' ! a = objects st3 ! a) \<and>
         placeholder (RemoteHandlebars opts) = js_or (own_prop opts ''placeholder'') (Str ''content'') \<and>
         placeholder (RemoteHandlebars_cm opts) = js_or (own_prop opts ''placeholder'') (Str ''content'')"
proof -
  let ?ts = "render_tasks this (objects st) filePath ctx"
  let ?tsc = "render_tasks_cm this (objects st) filePath ctx"
  have len: "ctx < length (objects st3)"
  proof -
    have "objects st1 = objects st" using viewTask_frame [OF view] by simp
    moreover have "length (objects st1) \<le> length (objects st2)"
      using resolved layoutTask_length [of w this now lay ctx st1 _ st2]
      by (auto split: if_splits)
    moreover have "objects st3 = objects st2"
      using partials by (rule partials_part_frame)
    ultimately show ?thesis using valid by simp
  qed
  have heap: "get_prop h' (Ref ctx) key = Str rendered \<and>
         (\<forall>k. k \<noteq> key \<longrightarrow> (h' ! ctx) k = (objects st3 ! ctx) k) \<and>
         (\<forall>a. a \<noteq> ctx \<longrightarrow> h' ! a = objects st3 ! a)"
    using len by (simp add: h' set_prop_def get_prop_def)
  have dflt: "placeholder (RemoteHandlebars opts) = js_or (own_prop opts ''placeholder'') (Str ''content'') \<and>
         placeholder (RemoteHandlebars_cm opts) = js_or (own_prop opts ''placeholder'') (Str ''content'')"
    by (simp add: RemoteHandlebars_def RemoteHandlebars_cm_def)
  let ?r = "\<lparr> r_view = CT view, r_layout = Some (Fun l), r_partials = ps \<rparr>"
  have comp: "compose w (Str key) (js_or (get_prop (objects st) (Ref ctx) ''helpers'') (helpers this))
                ctx (Returns ?r) st3 = (Returns (exec w l h' ctx stg), st3\<lparr>objects := h'\<rparr>)"
    by (simp add: compose_def Let_def stg rendered h')
  have tv: "t_view ?ts = filePath" "t_view ?tsc = filePath" "t_partials ?tsc = t_partials ?ts"
    by (simp_all add: render_tasks_def render_tasks_cm_def Let_def)
  from resolved have run: "R w this now filePath ctx st =
      (Returns (exec w l h' ctx stg), st3\<lparr>objects := h'\<rparr>)"
  proof (elim disjE conjE)
    assume R: "R = render" and lt: "layoutTask w this now lay ctx st1 = (Returns (Fun l), st2)"
    have tl: "t_layout ?ts = Some lay"
      using lay truthy by (simp add: render_tasks_def Let_def)
    have "parallel w this now ?ts ctx st = (Returns ?r, st3)"
      by (simp add: parallel_def tv view tl lt partials join3_def)
    then show ?thesis
      using valid comp by (simp add: R render_def Let_def key)
  next
    assume R: "R = render_cm"
      and lt: "(if is_function lay then (Returns lay, st1)
                else layoutTask_cm w this now lay ctx st1) = (Returns (Fun l), st2)"
    show ?thesis
    proof (cases "is_function lay")
      case True
      with lt have l: "lay = Fun l" "st2 = st1" by simp_all
      have tl: "t_layout ?tsc = None"
        using lay True by (simp add: render_tasks_cm_def Let_def)
      have "parallel_cm w this now ?tsc ctx st =
              (Returns \<lparr> r_view = CT view, r_layout = None, r_partials = ps \<rparr>, st3)"
        using partials [unfolded l(2)] by (simp add: parallel_cm_def tv view tl join3_def)
      then show ?thesis
        using valid comp lay by (simp add: R render_cm_def Let_def key l)
    next
      case False
      with lt have lt': "layoutTask_cm w this now lay ctx st1 = (Returns (Fun l), st2)" by simp
      have tl: "t_layout ?tsc = Some lay"
        using lay truthy False by (simp add: render_tasks_cm_def Let_def)
      have "parallel_cm w this now ?tsc ctx st = (Returns ?r, st3)"
        by (simp add: parallel_cm_def tv view tl lt' partials join3_def)
      then show ?thesis
        using valid comp lay False by (simp add: R render_cm_def Let_def key)
    qed
  qed
  from run heap dflt show ?thesis by blast
qed

theorem render_with_layout_witness:
  "0 < length (objects (start (Map.empty(''placeholder'' \<mapsto> Str ''body'')))) \<and>
   truthy (Str ''http://mocked/layouts/default'') \<and>
   js_or (get_prop (objects (start (Map.empty(''placeholder'' \<mapsto> Str ''body'')))) (Ref 0)
            ''placeholder'') (placeholder plain_site) = Str ''body'' \<and>
   (\<exists>h stg.
      get_prop (objects (snd (render demo plain_site 0 ''views/index.handlebars'' 0
                                (start (Map.empty(''placeholder'' \<mapsto> Str ''body''))))))
        (Ref 0) ''body'' = Str (exec demo (Compiled ''<article>'') h 0 stg) \<and>
      fst (render demo plain_site 0 ''views/index.handlebars'' 0
             (start (Map.empty(''placeholder'' \<mapsto> Str ''body'')))) =
        Returns (exec demo (Compiled ''<body>'')
                   (objects (snd (render demo plain_site 0 ''views/index.handlebars'' 0
                                    (start (Map.empty(''placeholder'' \<mapsto> Str ''body''))))))
                   0 stg)) \<and>
   fst (render demo plain_site 0 ''views/index.handlebars'' 0
          (start (Map.empty(''placeholder'' \<mapsto> Str ''body'')))) = Returns ''<body><article>'' \<and>
   get_prop (objects (snd (render demo plain_site 0 ''views/index.handlebars'' 0
                             (start (Map.empty(''placeholder'' \<mapsto> Str ''body'')))))) (Ref 0)
     ''body'' = Str ''<article>'' \<and>
   get_prop (objects (snd (render demo plain_site 0 ''views/index.handlebars'' 0
                             (start (Map.empty(''placeholder'' \<mapsto> Str ''body'')))))) (Ref 0)
     ''content'' = Undefined \<and>
   get_prop (objects (snd (render demo plain_site 0 ''views/index.handlebars'' 0
                             (start Map.empty)))) (Ref 0) ''content'' = Str ''<article>''"
  (is "?valid \<and> ?truthy \<and> ?key \<and> ?main \<and> ?e1 \<and> ?e2 \<and> ?e3 \<and> ?e4")
proof -
  let ?S = "start (Map.empty(''placeholder'' \<mapsto> Str ''body''))"
  let ?fp = "''views/index.handlebars''"
  let ?S1 = "snd (viewTask demo plain_site 0 ?fp 0 ?S)"
  let ?S2 = "snd (layoutTask demo plain_site 0 (Str ''http://mocked/layouts/default'') 0 ?S1)"
  have valid: ?valid by (simp add: start_def)
  have truthy: ?truthy by simp
  have key: ?key by (simp add: start_def get_prop_def js_or_def)
  have "returned_template (fst (viewTask demo plain_site 0 ?fp 0 ?S)) = Some (Compiled ''<article>'')"
    by code_simp
  then have "fst (viewTask demo plain_site 0 ?fp 0 ?S) = Returns (CT (Compiled ''<article>''))"
    by (auto simp add: returned_template_def split: outcome.splits cval.splits)
  then have view: "viewTask demo plain_site 0 ?fp 0 ?S = (Returns (CT (Compiled ''<article>'')), ?S1)"
    by (metis prod.collapse)
  have lay: "(if has_prop (objects ?S) 0 ''layout'' then get_prop (objects ?S) (Ref 0) ''layout''
              else layout plain_site) = Str ''http://mocked/layouts/default''"
    by (simp add: start_def has_prop_def plain_site_def RemoteHandlebars_def)
  have "fst (layoutTask demo plain_site 0 (Str ''http://mocked/layouts/default'') 0 ?S1) =
          Returns (Fun (Compiled ''<body>''))"
    by code_simp
  then have lt: "layoutTask demo plain_site 0 (Str ''http://mocked/layouts/default'') 0 ?S1 =
          (Returns (Fun (Compiled ''<body>'')), ?S2)"
    by (metis prod.collapse)
  have parts: "(case t_partials (render_tasks plain_site (objects ?S) ?fp 0) of
                  None \<Rightarrow> (Returns None, ?S2)
                | Some dirs \<Rightarrow> optional (partialsTask demo plain_site 0 dirs 0 ?S2)) =
               (Returns None, ?S2)"
  proof -
    have "t_partials (render_tasks plain_site (objects ?S) ?fp 0) = None"
      by (simp add: render_tasks_def plain_site_def start_def get_prop_def js_or_def Let_def)
    then show ?thesis by simp
  qed
  define stg where
    "stg = \<lparr> s_helpers = js_or (get_prop (objects ?S) (Ref 0) ''helpers'') (helpers plain_site),
             s_partials = None, s_data = get_prop (objects ?S2) (Ref 0) ''data'' \<rparr>"
  define rendered where "rendered = exec demo (Compiled ''<article>'') (objects ?S2) 0 stg"
  define h' where "h' = set_prop (objects ?S2) 0 ''body'' (Str rendered)"
  note all = render_with_layout
    [OF valid view lay truthy disjI1 [OF conjI [OF refl lt]] parts key stg_def rendered_def h'_def]
  have o: "objects (snd (render demo plain_site 0 ?fp 0 ?S)) = h'"
    and f: "fst (render demo plain_site 0 ?fp 0 ?S) = Returns (exec demo (Compiled ''<body>'') h' 0 stg)"
    using all [THEN conjunct1] by simp_all
  have g: "get_prop h' (Ref 0) ''body'' = Str (exec demo (Compiled ''<article>'') (objects ?S2) 0 stg)"
    using all [THEN conjunct2, THEN conjunct1] by (simp add: rendered_def)
  have main: ?main
    by (intro exI [of _ "objects ?S2"] exI [of _ stg]) (simp add: o f g)
  have e1: ?e1 by code_simp
  have e2: ?e2 by code_simp
  have e3: ?e3 by code_simp
  have e4: ?e4 by code_simp
  from valid truthy key main e1 e2 e3 e4 show ?thesis by blast
qed

section \<open>Merging the partials of several directories\<close>

lemma each_file_error: "fst (each_file w d fs (Inl e) lg) = Inl e"
  by (induction fs arbitrary: lg) (auto split: prod.splits sum.splits)

lemma each_file_entry:
  assumes "each_file w d fs (Inr t) lg = (Inr t', lg')"
  shows "if \<exists>f\<in>set fs. partial_name f = x
         then \<exists>f\<in>set fs. \<exists>lg1 c. partial_name f = x \<and>
                readFile w lg1 (path_resolve (cwd w) [d, f]) = Inr c \<and> t' x = Some (compile c)
         else t' x = t x"
  using assms
proof (induction fs arbitrary: t lg)
  case Nil
  then show ?case by simp
next
  case (Cons f fs)
  let ?p = "path_resolve (cwd w) [d, f]"
  show ?case
  proof (cases "readFile w lg ?p")
    case (Inl e)
    with Cons.prems have "each_file w d fs (Inl e) (lg @ [ReadFile ?p]) = (Inr t', lg')"
      by (simp add: readTemplate_def)
    then show ?thesis
      using each_file_error [of w d fs e "lg @ [ReadFile ?p]"] by simp
  next
    case (Inr c)
    with Cons.prems have rest:
      "each_file w d fs (Inr (t(partial_name f \<mapsto> compile c))) (lg @ [ReadFile ?p]) = (Inr t', lg')"
      by (simp add: readTemplate_def)
    note ih = Cons.IH [OF rest]
    show ?thesis
    proof (cases "\<exists>g\<in>set fs. partial_name g = x")
      case True
      with ih show ?thesis by auto
    next
      case False
      with ih have "t' x = (t(partial_name f \<mapsto> compile c)) x" by simp
      with False Inr show ?thesis by auto
    qed
  qed
qed

lemma reduce_dirs_last_wins:
  assumes "reduce_dirs w (pre @ [B]) t lg = (Inr m, lg')"
    and "\<And>lg. glob w lg B = Inr filesB"
    and "\<exists>f\<in>set filesB. partial_name f = x"
  shows "\<exists>f\<in>set filesB. \<exists>lg1 c. partial_name f = x \<and>
           readFile w lg1 (path_resolve (cwd w) [B, f]) = Inr c \<and> m x = Some (compile c)"
  using assms(1)
proof (induction pre arbitrary: t lg)
  case Nil
  obtain r l where ef: "each_file w B filesB (Inr t) (lg @ [Glob B]) = (r, l)"
    by (cases "each_file w B filesB (Inr t) (lg @ [Glob B])")
  with Nil assms(2) have "r = Inr m"
    by (cases r) simp_all
  with ef each_file_entry [of w B filesB t "lg @ [Glob B]" m l x] assms(3)
  show ?case by simp
next
  case (Cons A pre)
  show ?case
  proof (cases "glob w lg A")
    case (Inl e)
    with Cons.prems show ?thesis by simp
  next
    case (Inr fs)
    obtain r l where ef: "each_file w A fs (Inr t) (lg @ [Glob A]) = (r, l)"
      by (cases "each_file w A fs (Inr t) (lg @ [Glob A])")
    show ?thesis
    proof (cases r)
      case (Inl e)
      with Cons.prems Inr ef show ?thesis by simp
    next
      case (Inr t1)
      with Cons.prems \<open>glob w lg A = Inr fs\<close> ef
      have "reduce_dirs w (pre @ [B]) t1 l = (Inr m, lg')" by simp
      then show ?thesis by (rule Cons.IH)
    qed
  qed
qed

lemma wrap_miss:
  "store_get now k s = None \<Longrightarrow>
   wrap p now k loader (s, lg) =
     (case loader lg of
        (Inl err, lg') \<Rightarrow> (Inl err, s, lg')
      | (Inr (v, cc), lg') \<Rightarrow>
          (Inr v, store_set p now k v (map_option parseCacheControl cc) s, lg'))"
  by (simp add: wrap_def)

lemma getPartials_scan:
  assumes scans: "cache_option (objects st) (if is_function options then Null else options) = Bool False \<or>
                  store_get now (Str (concat paths)) (cacheForever st) = None"
    and result: "fst (getPartials w this now (Strs paths) options callback st) = Returns (CP m)"
  shows "\<exists>lg'. findTemplates w paths (trace st) = (Inr m, lg')"
proof -
  obtain r lg' where ft: "findTemplates w paths (trace st) = (r, lg')"
    by (cases "findTemplates w paths (trace st)")
  have "r = Inr m"
    using result scans ft
    by (cases r)
       (auto simp add: getPartials_def Let_def js_or_def dir_list_def wrap_miss plain_def
          split: if_splits prod.splits)
  with ft show ?thesis by simp
qed

text \<open>
  Claim C6, as amended. For every \<open>getPartials\<close> call that scans its directories (caching
  is disabled for the call, or the forever store holds no usable entry under the
  concatenation of the directory list) and hands back a map of partials: if the last
  directory \<open>B\<close> of the list (as in \<open>[A, B]\<close>) lists a file whose partial name is \<open>x\<close>, then
  the entry for \<open>x\<close> is the compiled content of such a file of \<open>B\<close>, whatever the earlier
  directories hold under that name.
\<close>

theorem partials_last_directory_wins:
  assumes listing: "\<And>lg. glob w lg B = Inr filesB"
    and has_x: "\<exists>f\<in>set filesB. partial_name f = x"
    and scans: "cache_option (objects st) (if is_function options then Null else options) = Bool False \<or>
                store_get now (Str (concat (pre @ [B]))) (cacheForever st) = None"
    and result: "fst (getPartials w this now (Strs (pre @ [B])) options callback st) = Returns (CP m)"
  shows "\<exists>f\<in>set filesB. \<exists>lg c. partial_name f = x \<and>
           readFile w lg (path_resolve (cwd w) [B, f]) = Inr c \<and> m x = Some (compile c)"
proof -
  from getPartials_scan [OF scans result]
  obtain lg' where "reduce_dirs w (pre @ [B]) Map.empty (trace st) = (Inr m, lg')"
    by (auto simp add: findTemplates_def)
  then show ?thesis
    using listing has_x by (rule reduce_dirs_last_wins)
qed

text \<open>
  The claim as stated, for every call, fails on a call that is answered from the forever
  store. After \<open>getPartials('/srv/views/partials')\<close> the store holds that directory's
  partials under the key \<open>/srv/views/partials\<close>; the list \<open>['/srv/views', '/partials']\<close> has the
  same concatenation, so the call with it is answered with the stored map, whose \<open>x\<close> is
  not the template of \<open>/partials\<close>, although both directories of the list hold an \<open>x\<close>.
\<close>

theorem partials_served_from_colliding_entry:
  "glob demo [] ''/srv/views'' = Inr [''index.handlebars'', ''x.hbs'', ''partials/x.hbs''] \<and>
   glob demo [] ''/partials'' = Inr [''x.hbs''] \<and>
   partial_name ''x.hbs'' = ''x'' \<and>
   readFile demo [] (path_resolve (cwd demo) [''/partials'', ''x.hbs'']) = Inr ''B'' \<and>
   returned_partial
     (fst (getPartials demo (RemoteHandlebars Map.empty) 1 (Strs [''/srv/views'', ''/partials''])
             Undefined Callback
             (snd (getPartials demo (RemoteHandlebars Map.empty) 0 (Str ''/srv/views/partials'')
                     Undefined Callback (start Map.empty))))) ''x'' = Some (Compiled ''P'') \<and>
   Some (Compiled ''P'') \<noteq> Some (compile ''B'')"
  by code_simp

theorem partials_last_directory_wins_witness:
  "(\<forall>lg. glob demo lg ''/partials'' = Inr [''x.hbs'']) \<and>
   (\<exists>f\<in>set [''x.hbs'']. partial_name f = ''x'') \<and>
   store_get 0 (Str (concat ([''/srv/views''] @ [''/partials'']))) (cacheForever (start Map.empty)) = None \<and>
   (\<exists>lg c. readFile demo lg (path_resolve (cwd demo) [''/partials'', ''x.hbs'']) = Inr c \<and>
      returned_partial
        (fst (getPartials demo (RemoteHandlebars Map.empty) 0 (Strs [''/srv/views'', ''/partials''])
                Undefined Callback (start Map.empty))) ''x'' = Some (compile c)) \<and>
   returned_partial
     (fst (getPartials demo (RemoteHandlebars Map.empty) 0 (Strs [''/srv/views'', ''/partials''])
             Undefined Callback (start Map.empty))) ''x'' = Some (Compiled ''B'') \<and>
   readFile demo [] ''/srv/views/x.hbs'' = Inr ''A''"
  (is "?listing \<and> ?has \<and> ?miss \<and> ?main \<and> ?e1 \<and> ?e2")
proof -
  let ?r = "fst (getPartials demo (RemoteHandlebars Map.empty) 0
                   (Strs [''/srv/views'', ''/partials'']) Undefined Callback (start Map.empty))"
  have listing: "\<And>lg. glob demo lg ''/partials'' = Inr [''x.hbs'']"
    by (simp add: demo_def listing_def)
  have has: ?has by (simp add: partial_name_def ends_with_def)
  have miss: ?miss by (simp add: start_def store_get_def)
  have e1: ?e1 by code_simp
  have e2: ?e2 by code_simp
  from e1 obtain m where m: "?r = Returns (CP m)"
    by (auto simp add: returned_partial_def split: outcome.splits cval.splits)
  then have m': "fst (getPartials demo (RemoteHandlebars Map.empty) 0
                   (Strs ([''/srv/views''] @ [''/partials''])) Undefined Callback (start Map.empty)) =
                 Returns (CP m)"
    by simp
  from partials_last_directory_wins [OF listing has disjI2 [OF miss] m']
  have main: ?main by (simp add: m returned_partial_def)
  from listing has miss main e1 e2 show ?thesis by blast
qed

section \<open>The key of the partials in the forever store\<close>

lemma never_expire_entry:
  "never_expire s \<Longrightarrow> map_of s k = Some e \<Longrightarrow> expiresAt e = None \<and> staleUntil e = None"
  by (auto simp add: never_expire_def list_all_iff dest!: map_of_SomeD)

lemma store_get_forever: "never_expire s \<Longrightarrow> store_get now k s = map_of s k"
  by (auto simp add: store_get_def before_def split: option.splits dest: never_expire_entry)

lemma never_expire_without: "never_expire s \<Longrightarrow> never_expire (without k s)"
  by (simp add: never_expire_def without_def list_all_iff)

lemma never_expire_touch: "never_expire s \<Longrightarrow> never_expire (touch k s)"
  by (auto simp add: touch_def never_expire_without split: option.splits)
     (auto simp add: never_expire_def list_all_iff without_def dest!: map_of_SomeD)

lemma map_of_without: "map_of (without k s) k' = (if k' = k then None else map_of s k')"
  by (induction s) (auto simp add: without_def)

lemma map_of_touch: "map_of (touch k s) k' = map_of s k'"
  by (auto simp add: touch_def map_of_without split: option.splits)

lemma store_set_forever:
  "store_set forever now k v None s =
     (k, \<lparr> e_value = v, expiresAt = None, staleUntil = None \<rparr>) # without k s"
  by (simp add: store_set_def forever_def freshnessPolicy_def Let_def)

lemma wrap_forever:
  assumes "never_expire s"
  shows "wrap forever now k (plain f) (s, lg) =
     (case map_of s k of
        Some e \<Rightarrow> (Inr (e_value e), touch k s, lg)
      | None \<Rightarrow>
          (case f lg of
             (Inl err, lg') \<Rightarrow> (Inl err, s, lg')
           | (Inr v, lg') \<Rightarrow>
               (Inr v, (k, \<lparr> e_value = v, expiresAt = None, staleUntil = None \<rparr>) # without k s,
                lg')))"
  using assms
  by (auto simp add: wrap_def store_get_forever before_def plain_def store_set_forever
      split: option.splits prod.splits sum.splits dest: never_expire_entry)

lemma wrap_forever_result:
  assumes "never_expire s" and "wrap forever now k (plain f) (s, lg) = (Inr v, s', lg')"
  shows "never_expire s' \<and> (\<exists>e. map_of s' k = Some e \<and> e_value e = v) \<and>
         (\<forall>k'. k' \<noteq> k \<longrightarrow> map_of s' k' = map_of s k')"
  using assms
  by (auto simp add: wrap_forever map_of_touch map_of_without never_expire_touch
      split: option.splits prod.splits sum.splits)
     (auto simp add: never_expire_def list_all_iff without_def)

lemma wrap_forever_other_keys:
  assumes "never_expire s" and "wrap forever now k (plain f) (s, lg) = (r, s', lg')" and "k' \<noteq> k"
  shows "map_of s' k' = map_of s k'"
  using assms
  by (auto simp add: wrap_forever map_of_touch map_of_without
      split: option.splits prod.splits sum.splits)

lemma getPartials_cached:
  assumes cb: "truthy callback" and opts: "\<not> is_function options"
    and on: "cache_option (objects st) options \<noteq> Bool False"
  shows "getPartials w this now (Strs xs) options callback st =
     (case wrap forever now (Str (concat xs))
             (plain (\<lambda>lg. case findTemplates w xs lg of (r, lg') \<Rightarrow> (map_sum id CP r, lg')))
             (cacheForever st, trace st) of
        (r, c, lg) \<Rightarrow> (completed r, st\<lparr>cacheForever := c, trace := lg\<rparr>))"
  using assms by (simp add: getPartials_def Let_def js_or_def dir_list_def)

text \<open>
  Claim C8, as amended. A \<open>getPartials\<close> call with caching enabled reads through the forever
  store under the key that is the concatenation, in order, of its directory list. Hence a
  later call whose list has the same concatenation (however it is split into elements, and
  also when it is a reordering) gets the map of the first call back without any scan,
  while a list with a different concatenation has an entry of its own, which the call
  leaves alone. Reordered lists get distinct entries exactly when their concatenations
  differ.
\<close>

theorem partials_cache_key_is_concatenation:
  assumes cb: "truthy callback" and opts: "\<not> is_function options"
    and on: "cache_option (objects st) options \<noteq> Bool False"
    and inv: "never_expire (cacheForever st)"
    and first: "getPartials w this now (Strs xs) options callback st = (r1, st1)"
  shows "getPartials w this now (Strs xs) options callback st =
           (case wrap forever now (Str (concat xs))
                   (plain (\<lambda>lg. case findTemplates w xs lg of (r, lg') \<Rightarrow> (map_sum id CP r, lg')))
                   (cacheForever st, trace st) of
              (r, c, lg) \<Rightarrow> (completed r, st\<lparr>cacheForever := c, trace := lg\<rparr>)) \<and>
         (\<forall>v. r1 = Returns v \<and> concat ys = concat xs \<longrightarrow>
            fst (getPartials w this now' (Strs ys) options callback st1) = Returns v \<and>
            trace (snd (getPartials w this now' (Strs ys) options callback st1)) = trace st1) \<and>
         (concat ys \<noteq> concat xs \<longrightarrow>
            map_of (cacheForever st1) (Str (concat ys)) = map_of (cacheForever st) (Str (concat ys))) \<and>
         never_expire (cacheForever st1)"
proof -
  let ?L = "\<lambda>zs. plain (\<lambda>lg. case findTemplates w zs lg of (r, lg') \<Rightarrow> (map_sum id CP r, lg'))"
  note eq = getPartials_cached [OF cb opts on]
  obtain r c lg where wr: "wrap forever now (Str (concat xs)) (?L xs) (cacheForever st, trace st) = (r, c, lg)"
    by (metis prod_cases3)
  from first have r1: "r1 = completed r" and st1: "st1 = st\<lparr>cacheForever := c, trace := lg\<rparr>"
    by (simp_all add: eq wr)
  have on1: "cache_option (objects st1) options \<noteq> Bool False"
    using on by (simp add: st1)
  have inv1: "never_expire (cacheForever st1)"
  proof (cases r)
    case (Inl e)
    with wr inv show ?thesis
      by (auto simp add: st1 wrap_forever never_expire_touch split: option.splits prod.splits sum.splits)
  next
    case (Inr v)
    with wrap_forever_result [OF inv] wr show ?thesis by (simp add: st1)
  qed
  have share: "\<forall>v. r1 = Returns v \<and> concat ys = concat xs \<longrightarrow>
            fst (getPartials w this now' (Strs ys) options callback st1) = Returns v \<and>
            trace (snd (getPartials w this now' (Strs ys) options callback st1)) = trace st1"
  proof (intro allI impI, elim conjE)
    fix v
    assume v: "r1 = Returns v" and k: "concat ys = concat xs"
    from v r1 have "r = Inr v" by (cases r) simp_all
    with wrap_forever_result [OF inv] wr
    obtain e where e: "map_of c (Str (concat xs)) = Some e" "e_value e = v" by blast
    have c: "cacheForever st1 = c" by (simp add: st1)
    show "fst (getPartials w this now' (Strs ys) options callback st1) = Returns v \<and>
            trace (snd (getPartials w this now' (Strs ys) options callback st1)) = trace st1"
      using e inv1
      by (simp add: getPartials_cached [OF cb opts on1] k c wrap_forever)
  qed
  have other: "concat ys \<noteq> concat xs \<longrightarrow>
            map_of (cacheForever st1) (Str (concat ys)) = map_of (cacheForever st) (Str (concat ys))"
    using wrap_forever_other_keys [OF inv wr, of "Str (concat ys)"] by (simp add: st1)
  from eq share other inv1 show ?thesis by blast
qed

text \<open>
  The claim as stated says that reordered lists get distinct entries. The lists
  \<open>['/p', '/p/p']\<close> and \<open>['/p/p', '/p']\<close> are reorderings of each other with the same
  concatenation \<open>/p/p/p\<close>: after a call with the first, a call with the second finds its
  entry, scans nothing and hands back the first call's map, in which \<open>x\<close> comes from \<open>/p/p\<close>,
  where a scan of the second list would take it from \<open>/p\<close>.
\<close>

theorem reordered_partial_lists_share_an_entry:
  "[''/p'', ''/p/p''] \<noteq> [''/p/p'', ''/p''] \<and>
   concat [''/p'', ''/p/p''] = concat [''/p/p'', ''/p''] \<and>
   map fst (cacheForever
     (snd (getPartials demo (RemoteHandlebars Map.empty) 1 (Strs [''/p/p'', ''/p'']) (Ref 0) Callback
       (snd (getPartials demo (RemoteHandlebars Map.empty) 0 (Strs [''/p'', ''/p/p'']) (Ref 0) Callback
          (start Map.empty)))))) = [Str ''/p/p/p''] \<and>
   trace
     (snd (getPartials demo (RemoteHandlebars Map.empty) 1 (Strs [''/p/p'', ''/p'']) (Ref 0) Callback
       (snd (getPartials demo (RemoteHandlebars Map.empty) 0 (Strs [''/p'', ''/p/p'']) (Ref 0) Callback
          (start Map.empty))))) =
   trace
     (snd (getPartials demo (RemoteHandlebars Map.empty) 0 (Strs [''/p'', ''/p/p'']) (Ref 0) Callback
        (start Map.empty))) \<and>
   returned_partial
     (fst (getPartials demo (RemoteHandlebars Map.empty) 1 (Strs [''/p/p'', ''/p'']) (Ref 0) Callback
       (snd (getPartials demo (RemoteHandlebars Map.empty) 0 (Strs [''/p'', ''/p/p'']) (Ref 0) Callback
          (start Map.empty))))) ''x'' = Some (Compiled ''2'') \<and>
   returned_partial
     (fst (getPartials demo (RemoteHandlebars Map.empty) 1 (Strs [''/p/p'', ''/p'']) (Ref 0) Callback
        (start Map.empty))) ''x'' = Some (Compiled ''1'')"
  by code_simp

theorem partials_cache_key_is_concatenation_witness:
  "truthy Callback \<and> \<not> is_function (Ref 0) \<and>
   cache_option (objects (start Map.empty)) (Ref 0) \<noteq> Bool False \<and>
   never_expire (cacheForever (start Map.empty)) \<and>
   concat [''/srv/views'', ''/partials''] = concat [''/srv/views/partials''] \<and>
   fst (getPartials demo (RemoteHandlebars Map.empty) 7 (Strs [''/srv/views'', ''/partials''])
          (Ref 0) Callback
          (snd (getPartials demo (RemoteHandlebars Map.empty) 0 (Strs [''/srv/views/partials''])
                  (Ref 0) Callback (start Map.empty)))) =
     fst (getPartials demo (RemoteHandlebars Map.empty) 0 (Strs [''/srv/views/partials''])
            (Ref 0) Callback (start Map.empty)) \<and>
   trace (snd (getPartials demo (RemoteHandlebars Map.empty) 7 (Strs [''/srv/views'', ''/partials''])
          (Ref 0) Callback
          (snd (getPartials demo (RemoteHandlebars Map.empty) 0 (Strs [''/srv/views/partials''])
                  (Ref 0) Callback (start Map.empty))))) =
     [Glob ''/srv/views/partials'', ReadFile ''/srv/views/partials/x.hbs''] \<and>
   map fst (cacheForever
     (snd (getPartials demo (RemoteHandlebars Map.empty) 0 (Strs [''/partials'', ''/srv/views''])
             (Ref 0) Callback
             (snd (getPartials demo (RemoteHandlebars Map.empty) 0 (Strs [''/srv/views'', ''/partials''])
                     (Ref 0) Callback (start Map.empty)))))) =
     [Str ''/partials/srv/views'', Str ''/srv/views/partials'']"
  (is "?cb \<and> ?opts \<and> ?on \<and> ?inv \<and> ?k \<and> ?same \<and> ?e1 \<and> ?e2")
proof -
  let ?R1 = "getPartials demo (RemoteHandlebars Map.empty) 0 (Strs [''/srv/views/partials''])
               (Ref 0) Callback (start Map.empty)"
  have cb: ?cb by simp
  have opts: ?opts by simp
  have on: ?on by (simp add: cache_option_def start_def get_prop_def)
  have inv: ?inv by (simp add: start_def never_expire_def)
  have k: ?k by simp
  have "returned_partial (fst ?R1) ''x'' = Some (Compiled ''P'')" by code_simp
  then obtain m where m: "fst ?R1 = Returns (CP m)"
    by (auto simp add: returned_partial_def split: outcome.splits cval.splits)
  have first: "?R1 = (fst ?R1, snd ?R1)" by simp
  note all = partials_cache_key_is_concatenation [OF cb opts on inv first]
  have same: ?same
    using all [THEN conjunct2, THEN conjunct1, rule_format, OF conjI [OF m k], THEN conjunct1]
    by (simp add: m)
  have e1: ?e1 by code_simp
  have e2: ?e2 by code_simp
  from cb opts on inv k same e1 e2 show ?thesis by blast
qed

section \<open>The partials branch of render\<close>

lemma thrown_optional: "thrown (fst (optional r)) = thrown (fst r)"
  by (cases r rule: optional.cases) simp_all

lemma compose_cacheForever:
  "cacheForever (snd (compose w pl hs ctx res st)) = cacheForever st"
  by (auto simp add: compose_def Let_def split: outcome.splits cval.splits option.splits
      jsval.splits)

lemma compose_Throws: "compose w pl hs ctx (Throws e) st = (Throws e, st)"
  by (simp add: compose_def)

lemma compose_Returns:
  "fst (compose w pl hs ctx res st) = Returns txt \<Longrightarrow> \<exists>r. res = Returns r"
  by (cases res) (simp_all add: compose_def)

lemma with_layout_Returns:
  "with_layout lay res = Returns r \<Longrightarrow> \<exists>r0. res = Returns r0 \<and> r_partials r = r_partials r0"
  by (cases res) (auto split: if_splits)

lemma join3_Returns:
  "join3 ov ol op = Returns r \<Longrightarrow> op = Returns (r_partials r)"
  by (auto simp add: join3_def split: outcome.splits)

lemma each_file_extends: "\<exists>rest. snd (each_file w d fs acc lg) = lg @ rest"
proof (induction fs arbitrary: acc lg)
  case Nil
  then show ?case by simp
next
  case (Cons f fs)
  obtain r lg' where rt: "readTemplate w (path_resolve (cwd w) [d, f]) lg = (r, lg')"
    by (cases "readTemplate w (path_resolve (cwd w) [d, f]) lg")
  then have lg': "lg' = lg @ [ReadFile (path_resolve (cwd w) [d, f])]"
    by (rule readTemplate_traceD)
  show ?case
  proof (cases r)
    case (Inl e)
    from Cons.IH [of "case acc of Inl e0 \<Rightarrow> Inl e0 | Inr t \<Rightarrow> Inl e" lg']
    show ?thesis by (auto simp add: rt Inl lg')
  next
    case (Inr tpl)
    from Cons.IH [of "case acc of Inl e0 \<Rightarrow> Inl e0 | Inr t \<Rightarrow> Inr (t(partial_name f \<mapsto> tpl))" lg']
    show ?thesis by (auto simp add: rt Inr lg')
  qed
qed

lemma reduce_dirs_extends: "\<exists>rest. snd (reduce_dirs w ds t lg) = lg @ rest"
proof (induction ds arbitrary: t lg)
  case Nil
  then show ?case by simp
next
  case (Cons d ds)
  show ?case
  proof (cases "glob w lg d")
    case (Inl e)
    then show ?thesis by simp
  next
    case (Inr fs)
    obtain r lg' where ef: "each_file w d fs (Inr t) (lg @ [Glob d]) = (r, lg')"
      by (cases "each_file w d fs (Inr t) (lg @ [Glob d])")
    from each_file_extends [of w d fs "Inr t" "lg @ [Glob d]"] ef
    obtain rest where lg': "lg' = lg @ Glob d # rest" by auto
    show ?thesis
    proof (cases r)
      case (Inl e)
      then show ?thesis by (simp add: Inr ef lg')
    next
      case (Inr t')
      from Cons.IH [of t' lg'] obtain rest' where "snd (reduce_dirs w ds t' lg') = lg' @ rest'"
        by blast
      then show ?thesis by (simp add: \<open>glob w lg d = Inr fs\<close> ef Inr lg')
    qed
  qed
qed

lemma findTemplates_starts_with_glob:
  "\<exists>rest. snd (findTemplates w (d # ds) lg) = lg @ Glob d # rest"
proof (cases "glob w lg d")
  case (Inl e)
  then show ?thesis by (simp add: findTemplates_def)
next
  case (Inr fs)
  obtain r lg' where ef: "each_file w d fs (Inr Map.empty) (lg @ [Glob d]) = (r, lg')"
    by (cases "each_file w d fs (Inr Map.empty) (lg @ [Glob d])")
  from each_file_extends [of w d fs "Inr Map.empty" "lg @ [Glob d]"] ef
  obtain rest where lg': "lg' = lg @ Glob d # rest" by auto
  show ?thesis
  proof (cases r)
    case (Inl e)
    then show ?thesis by (simp add: findTemplates_def Inr ef lg')
  next
    case (Inr t')
    from reduce_dirs_extends [of w ds t' lg'] obtain rest' where
      "snd (reduce_dirs w ds t' lg') = lg' @ rest'" by blast
    then show ?thesis by (simp add: findTemplates_def \<open>glob w lg d = Inr fs\<close> ef Inr lg')
  qed
qed

lemma getPartials_scan_trace:
  assumes nf: "\<not> is_function dirs" and conf: "truthy (js_or dirs (partialsDir this))"
    and paths: "dir_list (js_or dirs (partialsDir this)) = Some paths"
    and scans: "get_prop (objects st) (Ref ctx) ''cache'' = Bool False \<or>
                store_get now (Str (concat paths)) (cacheForever st) = None"
  shows "trace (snd (getPartials w this now dirs (Ref ctx) Callback st)) =
           snd (findTemplates w paths (trace st))"
proof (cases "get_prop (objects st) (Ref ctx) ''cache'' = Bool False")
  case True
  then show ?thesis
    using nf conf paths
    by (simp add: getPartials_def Let_def cache_option_def split: prod.splits)
next
  case False
  with scans have miss: "store_get now (Str (concat paths)) (cacheForever st) = None" by blast
  show ?thesis
    using nf conf paths False
    by (simp add: getPartials_def Let_def cache_option_def wrap_miss [OF miss] plain_def
        split: prod.splits sum.splits)
qed


lemma layoutTask_snd:
  "snd (layoutTask w this now lay ctx st) =
     (if is_function lay then st else snd (getLayout w this now lay (Ref ctx) Callback st))"
  "snd (layoutTask_cm w this now lay ctx st) = snd (getLayout_cm w this now lay (Ref ctx) Callback st)"
  by (simp_all add: layoutTask_def layoutTask_cm_def split: prod.splits outcome.splits)

lemma layoutTask_thrown:
  "thrown (fst (layoutTask w this now lay ctx st)) =
     (if is_function lay then None else thrown (fst (getLayout w this now lay (Ref ctx) Callback st)))"
  "thrown (fst (layoutTask_cm w this now lay ctx st)) =
     thrown (fst (getLayout_cm w this now lay (Ref ctx) Callback st))"
  by (simp_all add: layoutTask_def layoutTask_cm_def split: prod.splits outcome.splits)

lemma getLayout_string_returns:
  "s \<noteq> [] \<Longrightarrow> thrown (fst (getLayout w this now (Str s) (Ref ctx) Callback st)) = None"
  "s \<noteq> [] \<Longrightarrow> thrown (fst (getLayout_cm w this now (Str s) (Ref ctx) Callback st)) = None"
  by (simp_all add: getLayout_def getLayout_cm_def Let_def js_or_def ensure_accept_string
      split: prod.splits)

lemma getLayout_descriptor_returns:
  assumes d: "d < length (objects st)"
    and hd: "\<not> truthy (get_prop (objects st) (Ref d) ''headers'') \<or>
             (\<exists>b. get_prop (objects st) (Ref d) ''headers'' = Ref b \<and> b < length (objects st))"
  shows "thrown (fst (getLayout w this now (Ref d) (Ref ctx) Callback st)) = None"
    and "thrown (fst (getLayout_cm w this now (Ref d) (Ref ctx) Callback st)) = None"
proof -
  from set_accept_descriptor [OF d hd] obtain h where
    sa: "set_accept (objects st) d = Inr (d, h)" by blast
  have ea: "ensure_accept (objects st) (Ref d) = Inr (d, h)"
    using d sa by (simp add: ensure_accept_def)
  show "thrown (fst (getLayout w this now (Ref d) (Ref ctx) Callback st)) = None"
    by (simp add: getLayout_def Let_def js_or_def ea split: prod.splits)
  show "thrown (fst (getLayout_cm w this now (Ref d) (Ref ctx) Callback st)) = None"
    by (simp add: getLayout_cm_def Let_def js_or_def ea split: prod.splits)
qed

lemma getLayout_cache_flag:
  "get_prop (objects (snd (getLayout w this now url options callback st))) v ''cache'' =
     get_prop (objects st) v ''cache''"
  "get_prop (objects (snd (getLayout_cm w this now url options callback st))) v ''cache'' =
     get_prop (objects st) v ''cache''"
proof -
  show "get_prop (objects (snd (getLayout w this now url options callback st))) v ''cache'' =
     get_prop (objects st) v ''cache''"
  proof (cases rule: getLayout_cases [of w this now url options callback st])
    case (throws e) then show ?thesis by simp
  next
    case (direct a h r lg u) then show ?thesis by (simp add: cache_flag_ensure_accept)
  next
    case (wrapped a h r c lg u) then show ?thesis by (simp add: cache_flag_ensure_accept)
  qed
  show "get_prop (objects (snd (getLayout_cm w this now url options callback st))) v ''cache'' =
     get_prop (objects st) v ''cache''"
  proof (cases rule: getLayout_cm_cases [of w this now url options callback st])
    case (throws e) then show ?thesis by simp
  next
    case (direct a h r lg u) then show ?thesis by (simp add: cache_flag_ensure_accept)
  next
    case (wrapped a h r c lg u) then show ?thesis by (simp add: cache_flag_ensure_accept)
  qed
qed

lemma layoutTask_cache_flag:
  "get_prop (objects (snd (layoutTask w this now lay ctx st))) v ''cache'' =
     get_prop (objects st) v ''cache''"
  "get_prop (objects (snd (layoutTask_cm w this now lay ctx st))) v ''cache'' =
     get_prop (objects st) v ''cache''"
  by (simp_all add: layoutTask_snd getLayout_cache_flag)

lemma render_partials_branch:
  assumes valid: "ctx < length (objects st)"
    and lay: "lay = (if has_prop (objects st) ctx ''layout''
                     then get_prop (objects st) (Ref ctx) ''layout'' else layout this)"
    and dirs: "dirs = js_or (get_prop (objects st) (Ref ctx) ''partialsDir'') (partialsDir this)"
    and ts: "ts = render_tasks this (objects st) filePath ctx"
    and st1: "st1 = snd (viewTask w this now filePath ctx st)"
    and lt: "lt = layoutTask w this now lay ctx st1"
    and st2: "st2 = (if t_layout ts = None then st1 else snd lt)"
    and p: "p = partialsTask w this now dirs ctx st2"
    and r: "r = render w this now filePath ctx st"
  shows "truthy dirs \<and> \<not> (t_layout ts \<noteq> None \<and> thrown (fst lt) \<noteq> None) \<longrightarrow>
           trace (snd r) = trace (snd p) \<and> cacheForever (snd r) = cacheForever (snd p) \<and>
           (\<forall>e. fst p = Throws e \<longrightarrow> fst r = Throws e) \<and>
           (\<forall>txt. fst r = Returns txt \<longrightarrow> (\<exists>m. fst p = Returns m))"
    and "\<not> truthy dirs \<or> (t_layout ts \<noteq> None \<and> thrown (fst lt) \<noteq> None) \<longrightarrow>
           trace (snd r) = trace st2 \<and> cacheForever (snd r) = cacheForever st2"
    and "\<forall>e. t_layout ts \<noteq> None \<and> thrown (fst lt) = Some e \<longrightarrow> fst r = Throws e"
    and "\<not> truthy lay \<or> is_function lay \<or> (\<exists>s. lay = Str s) \<or>
           (\<exists>d. lay = Ref d \<and> d < length (objects st) \<and>
                (\<not> truthy (get_prop (objects st) (Ref d) ''headers'') \<or>
                 (\<exists>b. get_prop (objects st) (Ref d) ''headers'' = Ref b \<and>
                      b < length (objects st)))) \<longrightarrow>
           \<not> (t_layout ts \<noteq> None \<and> thrown (fst lt) \<noteq> None)"
    and "get_prop (objects st2) (Ref ctx) ''cache'' = get_prop (objects st) (Ref ctx) ''cache''"
    and "(t_partials ts \<noteq> None) = truthy dirs"
proof -
  let ?pl = "js_or (get_prop (objects st) (Ref ctx) ''placeholder'') (placeholder this)"
  let ?hs = "js_or (get_prop (objects st) (Ref ctx) ''helpers'') (helpers this)"
  obtain ov where v: "viewTask w this now filePath ctx st = (ov, st1)"
    using st1 by (cases "viewTask w this now filePath ctx st") simp
  have tv: "thrown ov = None"
    using v by (rule viewTask_never_throws)
  have o1: "objects st1 = objects st"
    using viewTask_frame [OF v] by simp
  have t_view: "t_view ts = filePath"
    and t_layout: "t_layout ts = (if truthy lay then Some lay else None)"
    and t_partials: "t_partials ts = (if truthy dirs then Some dirs else None)"
    by (simp_all add: ts render_tasks_def Let_def lay dirs)
  show tp: "(t_partials ts \<noteq> None) = truthy dirs"
    by (simp add: t_partials)
  obtain ol where l:
    "(case t_layout ts of None \<Rightarrow> (Returns None, st1)
      | Some lay \<Rightarrow> optional (layoutTask w this now lay ctx st1)) = (ol, st2)"
    and tol: "thrown ol = (if t_layout ts = None then None else thrown (fst lt))"
  proof (cases "t_layout ts")
    case None
    then show ?thesis using that [of "Returns None"] by (simp add: st2)
  next
    case (Some a)
    then have a: "a = lay" by (simp add: t_layout split: if_splits)
    show ?thesis
      using that [of "fst (optional lt)"] Some
      by (simp add: st2 a lt [symmetric] thrown_optional prod_eq_iff)
  qed
  let ?next = "case (case t_partials ts of None \<Rightarrow> (Returns None, st2)
                     | Some dirs \<Rightarrow> optional (partialsTask w this now dirs ctx st2)) of
                 (op, st3) \<Rightarrow> (case thrown op of Some e \<Rightarrow> (Throws e, st3)
                                | None \<Rightarrow> (join3 ov ol op, st3))"
  have par: "parallel w this now ts ctx st =
               (case thrown ol of Some e \<Rightarrow> (Throws e, st2) | None \<Rightarrow> ?next)"
    by (simp add: parallel_def t_view v tv l)
  have R: "r = (case parallel w this now ts ctx st of
                  (res, st') \<Rightarrow> compose w ?pl ?hs ctx (res) st')"
    using valid by (simp add: r render_def Let_def ts lay)
  show flag: "get_prop (objects st2) (Ref ctx) ''cache'' = get_prop (objects st) (Ref ctx) ''cache''"
    by (simp add: st2 lt layoutTask_cache_flag o1)
  show "\<not> truthy lay \<or> is_function lay \<or> (\<exists>s. lay = Str s) \<or>
           (\<exists>d. lay = Ref d \<and> d < length (objects st) \<and>
                (\<not> truthy (get_prop (objects st) (Ref d) ''headers'') \<or>
                 (\<exists>b. get_prop (objects st) (Ref d) ''headers'' = Ref b \<and>
                      b < length (objects st)))) \<longrightarrow>
           \<not> (t_layout ts \<noteq> None \<and> thrown (fst lt) \<noteq> None)"
    by (auto simp add: t_layout lt layoutTask_thrown getLayout_string_returns
        getLayout_descriptor_returns o1 split: if_splits)
  show "\<forall>e. t_layout ts \<noteq> None \<and> thrown (fst lt) = Some e \<longrightarrow> fst r = Throws e"
    by (auto simp add: R par tol compose_Throws)
  show "\<not> truthy dirs \<or> (t_layout ts \<noteq> None \<and> thrown (fst lt) \<noteq> None) \<longrightarrow>
           trace (snd r) = trace st2 \<and> cacheForever (snd r) = cacheForever st2"
  proof
    assume "\<not> truthy dirs \<or> (t_layout ts \<noteq> None \<and> thrown (fst lt) \<noteq> None)"
    then show "trace (snd r) = trace st2 \<and> cacheForever (snd r) = cacheForever st2"
    proof
      assume "t_layout ts \<noteq> None \<and> thrown (fst lt) \<noteq> None"
      then show ?thesis
        by (auto simp add: R par tol compose_Throws)
    next
      assume nd: "\<not> truthy dirs"
      show ?thesis
        by (cases "thrown ol")
           (simp_all add: R par t_partials nd compose_trace compose_cacheForever compose_Throws)
    qed
  qed
  show "truthy dirs \<and> \<not> (t_layout ts \<noteq> None \<and> thrown (fst lt) \<noteq> None) \<longrightarrow>
           trace (snd r) = trace (snd p) \<and> cacheForever (snd r) = cacheForever (snd p) \<and>
           (\<forall>e. fst p = Throws e \<longrightarrow> fst r = Throws e) \<and>
           (\<forall>txt. fst r = Returns txt \<longrightarrow> (\<exists>m. fst p = Returns m))"
  proof
    assume a: "truthy dirs \<and> \<not> (t_layout ts \<noteq> None \<and> thrown (fst lt) \<noteq> None)"
    then have d: "truthy dirs" and nol: "thrown ol = None"
      by (auto simp add: tol)
    obtain op where op: "optional p = (op, snd p)"
      by (metis optional_snd prod.collapse)
    have thr_op: "thrown op = thrown (fst p)"
      using thrown_optional [of p] op by simp
    let ?res = "case thrown op of Some e \<Rightarrow> Throws e | None \<Rightarrow> join3 ov ol op"
    have P: "parallel w this now ts ctx st = (?res, snd p)"
      by (simp add: par nol t_partials d p [symmetric] op split: option.splits)
    have r': "r = compose w ?pl ?hs ctx (?res) (snd p)"
      by (simp add: R P)
    have s1: "trace (snd r) = trace (snd p)" "cacheForever (snd r) = cacheForever (snd p)"
      by (simp_all add: r' compose_trace compose_cacheForever)
    have s2: "\<forall>e. fst p = Throws e \<longrightarrow> fst r = Throws e"
      using thr_op by (auto simp add: r' compose_Throws)
    have s3: "\<forall>txt. fst r = Returns txt \<longrightarrow> (\<exists>m. fst p = Returns m)"
    proof (intro allI impI)
      fix y
      assume "fst r = Returns y"
      then obtain res where "?res = Returns res"
        using compose_Returns r' by metis
      then obtain res0 where res0: "?res = Returns res0"
        by blast
      then have "join3 ov ol op = Returns res0"
        by (cases "thrown op") simp_all
      then have "op = Returns (r_partials res0)"
        by (rule join3_Returns)
      then have "fst (optional p) = Returns (r_partials res0)"
        using op by simp
      then show "\<exists>m. fst p = Returns m"
        by (cases p rule: optional.cases) simp_all
    qed
    from s1 s2 s3 show "trace (snd r) = trace (snd p) \<and> cacheForever (snd r) = cacheForever (snd p) \<and>
           (\<forall>e. fst p = Throws e \<longrightarrow> fst r = Throws e) \<and>
           (\<forall>txt. fst r = Returns txt \<longrightarrow> (\<exists>m. fst p = Returns m))"
      by blast
  qed
qed

lemma render_cm_partials_branch:
  assumes valid: "ctx < length (objects st)"
    and lay: "lay = (if has_prop (objects st) ctx ''layout''
                     then get_prop (objects st) (Ref ctx) ''layout'' else layout this)"
    and dirs: "dirs = js_or (get_prop (objects st) (Ref ctx) ''partialsDir'') (partialsDir this)"
    and ts: "ts = render_tasks_cm this (objects st) filePath ctx"
    and st1: "st1 = snd (viewTask w this now filePath ctx st)"
    and lt: "lt = layoutTask_cm w this now lay ctx st1"
    and st2: "st2 = (if t_layout ts = None then st1 else snd lt)"
    and p: "p = partialsTask w this now dirs ctx st2"
    and r: "r = render_cm w this now filePath ctx st"
  shows "truthy dirs \<and> \<not> (t_layout ts \<noteq> None \<and> thrown (fst lt) \<noteq> None) \<longrightarrow>
           trace (snd r) = trace (snd p) \<and> cacheForever (snd r) = cacheForever (snd p) \<and>
           (\<forall>e. fst p = Throws e \<longrightarrow> fst r = Throws e) \<and>
           (\<forall>txt. fst r = Returns txt \<longrightarrow> (\<exists>m. fst p = Returns m))"
    and "\<not> truthy dirs \<or> (t_layout ts \<noteq> None \<and> thrown (fst lt) \<noteq> None) \<longrightarrow>
           trace (snd r) = trace st2 \<and> cacheForever (snd r) = cacheForever st2"
    and "\<forall>e. t_layout ts \<noteq> None \<and> thrown (fst lt) = Some e \<longrightarrow> fst r = Throws e"
    and "\<not> truthy lay \<or> is_function lay \<or> (\<exists>s. lay = Str s) \<or>
           (\<exists>d. lay = Ref d \<and> d < length (objects st) \<and>
                (\<not> truthy (get_prop (objects st) (Ref d) ''headers'') \<or>
                 (\<exists>b. get_prop (objects st) (Ref d) ''headers'' = Ref b \<and>
                      b < length (objects st)))) \<longrightarrow>
           \<not> (t_layout ts \<noteq> None \<and> thrown (fst lt) \<noteq> None)"
    and "get_prop (objects st2) (Ref ctx) ''cache'' = get_prop (objects st) (Ref ctx) ''cache''"
    and "(t_partials ts \<noteq> None) = truthy dirs"
proof -
  let ?pl = "js_or (get_prop (objects st) (Ref ctx) ''placeholder'') (placeholder this)"
  let ?hs = "js_or (get_prop (objects st) (Ref ctx) ''helpers'') (helpers this)"
  obtain ov where v: "viewTask w this now filePath ctx st = (ov, st1)"
    using st1 by (cases "viewTask w this now filePath ctx st") simp
  have tv: "thrown ov = None"
    using v by (rule viewTask_never_throws)
  have o1: "objects st1 = objects st"
    using viewTask_frame [OF v] by simp
  have t_view: "t_view ts = filePath"
    and t_layout: "t_layout ts = (if truthy lay \<and> \<not> is_function lay then Some lay else None)"
    and t_partials: "t_partials ts = (if truthy dirs then Some dirs else None)"
    by (simp_all add: ts render_tasks_cm_def Let_def lay dirs)
  show tp: "(t_partials ts \<noteq> None) = truthy dirs"
    by (simp add: t_partials)
  obtain ol where l:
    "(case t_layout ts of None \<Rightarrow> (Returns None, st1)
      | Some lay \<Rightarrow> optional (layoutTask_cm w this now lay ctx st1)) = (ol, st2)"
    and tol: "thrown ol = (if t_layout ts = None then None else thrown (fst lt))"
  proof (cases "t_layout ts")
    case None
    then show ?thesis using that [of "Returns None"] by (simp add: st2)
  next
    case (Some a)
    then have a: "a = lay" by (simp add: t_layout split: if_splits)
    show ?thesis
      using that [of "fst (optional lt)"] Some
      by (simp add: st2 a lt [symmetric] thrown_optional prod_eq_iff)
  qed
  let ?next = "case (case t_partials ts of None \<Rightarrow> (Returns None, st2)
                     | Some dirs \<Rightarrow> optional (partialsTask w this now dirs ctx st2)) of
                 (op, st3) \<Rightarrow> (case thrown op of Some e \<Rightarrow> (Throws e, st3)
                                | None \<Rightarrow> (join3 ov ol op, st3))"
  have par: "parallel_cm w this now ts ctx st =
               (case thrown ol of Some e \<Rightarrow> (Throws e, st2) | None \<Rightarrow> ?next)"
    by (simp add: parallel_cm_def t_view v tv l)
  have R: "r = (case parallel_cm w this now ts ctx st of
                  (res, st') \<Rightarrow> compose w ?pl ?hs ctx (with_layout lay res) st')"
    using valid by (simp add: r render_cm_def Let_def ts lay)
  show flag: "get_prop (objects st2) (Ref ctx) ''cache'' = get_prop (objects st) (Ref ctx) ''cache''"
    by (simp add: st2 lt layoutTask_cache_flag o1)
  show "\<not> truthy lay \<or> is_function lay \<or> (\<exists>s. lay = Str s) \<or>
           (\<exists>d. lay = Ref d \<and> d < length (objects st) \<and>
                (\<not> truthy (get_prop (objects st) (Ref d) ''headers'') \<or>
                 (\<exists>b. get_prop (objects st) (Ref d) ''headers'' = Ref b \<and>
                      b < length (objects st)))) \<longrightarrow>
           \<not> (t_layout ts \<noteq> None \<and> thrown (fst lt) \<noteq> None)"
    by (auto simp add: t_layout lt layoutTask_thrown getLayout_string_returns
        getLayout_descriptor_returns o1 split: if_splits)
  show "\<forall>e. t_layout ts \<noteq> None \<and> thrown (fst lt) = Some e \<longrightarrow> fst r = Throws e"
    by (auto simp add: R par tol compose_Throws)
  show "\<not> truthy dirs \<or> (t_layout ts \<noteq> None \<and> thrown (fst lt) \<noteq> None) \<longrightarrow>
           trace (snd r) = trace st2 \<and> cacheForever (snd r) = cacheForever st2"
  proof
    assume "\<not> truthy dirs \<or> (t_layout ts \<noteq> None \<and> thrown (fst lt) \<noteq> None)"
    then show "trace (snd r) = trace st2 \<and> cacheForever (snd r) = cacheForever st2"
    proof
      assume "t_layout ts \<noteq> None \<and> thrown (fst lt) \<noteq> None"
      then show ?thesis
        by (auto simp add: R par tol compose_Throws)
    next
      assume nd: "\<not> truthy dirs"
      show ?thesis
        by (cases "thrown ol")
           (simp_all add: R par t_partials nd compose_trace compose_cacheForever compose_Throws)
    qed
  qed
  show "truthy dirs \<and> \<not> (t_layout ts \<noteq> None \<and> thrown (fst lt) \<noteq> None) \<longrightarrow>
           trace (snd r) = trace (snd p) \<and> cacheForever (snd r) = cacheForever (snd p) \<and>
           (\<forall>e. fst p = Throws e \<longrightarrow> fst r = Throws e) \<and>
           (\<forall>txt. fst r = Returns txt \<longrightarrow> (\<exists>m. fst p = Returns m))"
  proof
    assume a: "truthy dirs \<and> \<not> (t_layout ts \<noteq> None \<and> thrown (fst lt) \<noteq> None)"
    then have d: "truthy dirs" and nol: "thrown ol = None"
      by (auto simp add: tol)
    obtain op where op: "optional p = (op, snd p)"
      by (metis optional_snd prod.collapse)
    have thr_op: "thrown op = thrown (fst p)"
      using thrown_optional [of p] op by simp
    let ?res = "case thrown op of Some e \<Rightarrow> Throws e | None \<Rightarrow> join3 ov ol op"
    have P: "parallel_cm w this now ts ctx st = (?res, snd p)"
      by (simp add: par nol t_partials d p [symmetric] op split: option.splits)
    have r': "r = compose w ?pl ?hs ctx (with_layout lay ?res) (snd p)"
      by (simp add: R P)
    have s1: "trace (snd r) = trace (snd p)" "cacheForever (snd r) = cacheForever (snd p)"
      by (simp_all add: r' compose_trace compose_cacheForever)
    have s2: "\<forall>e. fst p = Throws e \<longrightarrow> fst r = Throws e"
      using thr_op by (auto simp add: r' compose_Throws)
    have s3: "\<forall>txt. fst r = Returns txt \<longrightarrow> (\<exists>m. fst p = Returns m)"
    proof (intro allI impI)
      fix y
      assume "fst r = Returns y"
      then obtain res where "with_layout lay ?res = Returns res"
        using compose_Returns r' by metis
      then obtain res0 where res0: "?res = Returns res0"
        using with_layout_Returns by blast
      then have "join3 ov ol op = Returns res0"
        by (cases "thrown op") simp_all
      then have "op = Returns (r_partials res0)"
        by (rule join3_Returns)
      then have "fst (optional p) = Returns (r_partials res0)"
        using op by simp
      then show "\<exists>m. fst p = Returns m"
        by (cases p rule: optional.cases) simp_all
    qed
    from s1 s2 s3 show "trace (snd r) = trace (snd p) \<and> cacheForever (snd r) = cacheForever (snd p) \<and>
           (\<forall>e. fst p = Throws e \<longrightarrow> fst r = Throws e) \<and>
           (\<forall>txt. fst r = Returns txt \<longrightarrow> (\<exists>m. fst p = Returns m))"
      by blast
  qed
qed


lemma partials_scan_trace:
  assumes conf: "truthy dirs"
    and dirs: "dirs = js_or x (partialsDir this)"
    and p: "p = partialsTask w this now dirs ctx st2"
    and nf: "\<not> is_function dirs"
    and paths: "dir_list dirs = Some (d # ds)"
    and scans: "get_prop (objects st2) (Ref ctx) ''cache'' = Bool False \<or>
                store_get now (Str (concat (d # ds))) (cacheForever st2) = None"
  shows "trace (snd p) = snd (findTemplates w (d # ds) (trace st2)) \<and>
         (\<exists>rest. trace (snd p) = trace st2 @ Glob d # rest)"
proof -
  have j: "js_or dirs (partialsDir this) = dirs"
    using conf by (simp add: js_or_def)
  have "trace (snd p) = snd (findTemplates w (d # ds) (trace st2))"
    using getPartials_scan_trace [of dirs this "d # ds" st2 ctx now w] nf conf paths scans
    by (simp add: p partialsTask_plain j)
  then show ?thesis
    using findTemplates_starts_with_glob [of w d ds "trace st2"] by simp
qed

text \<open>
  Claim C7. In a render call (either variant) the partials branch is dispatched if and
  only if a partials source is configured, that is, if
  \<open>options.partialsDir || this.partialsDir\<close> is truthy. The names below stand for the
  effective layout and partials source of the call, its tasks, the state \<open>st2\<close> in which
  \<open>async.parallel\<close> reaches the partials task (after the view task and, if there is one,
  the layout task) and the run \<open>p\<close> of the partials task in that state.

  \<^item> The task exists exactly when a source is configured, and a successful join carries
    partials exactly then.
  \<^item> When a source is configured and the layout task did not throw while it was started,
    the partials task runs: the render ends with the trace and the forever store that
    the task leaves, it throws what the task throws, and it hands back text only if the
    task returned partials. If the call is not answered from the forever store (caching is
    off, or the store has no usable entry under the key), the render scans the
    directories: its trace continues with the scan of the first directory.
  \<^item> When no source is configured, or the layout task threw, no partials branch runs: the
    render ends with the trace and the forever store that the earlier tasks left; without
    a source it adds no directory scan at all.
  \<^item> A layout task that throws ends the render with that error. It cannot throw when the
    layout is falsy, a function, a string, or a request descriptor whose headers are
    absent or an object.
  \<^item> An instance that comes from the constructor always has a source, because the
    constructor falls back to \<open>views/partials/\<close>.
\<close>

theorem partials_branch_iff_configured:
  assumes valid: "ctx < length (objects st)"
    and variant: "R = render \<and> L = layoutTask \<and> T = render_tasks \<and> P = parallel \<or>
                  R = render_cm \<and> L = layoutTask_cm \<and> T = render_tasks_cm \<and> P = parallel_cm"
    and lay: "lay = (if has_prop (objects st) ctx ''layout''
                     then get_prop (objects st) (Ref ctx) ''layout'' else layout this)"
    and dirs: "dirs = js_or (get_prop (objects st) (Ref ctx) ''partialsDir'') (partialsDir this)"
    and ts: "ts = T this (objects st) filePath ctx"
    and st1: "st1 = snd (viewTask w this now filePath ctx st)"
    and lt: "lt = L w this now lay ctx st1"
    and st2: "st2 = (if t_layout ts = None then st1 else snd lt)"
    and blocked: "blocked = (t_layout ts \<noteq> None \<and> thrown (fst lt) \<noteq> None)"
    and p: "p = partialsTask w this now dirs ctx st2"
    and r: "r = R w this now filePath ctx st"
  shows "(t_partials ts \<noteq> None) = truthy dirs \<and>
         (truthy dirs \<and> \<not> blocked \<longrightarrow>
            trace (snd r) = trace (snd p) \<and>
            cacheForever (snd r) = cacheForever (snd p) \<and>
            (\<forall>e. fst p = Throws e \<longrightarrow> fst r = Throws e) \<and>
            (\<forall>txt. fst r = Returns txt \<longrightarrow> (\<exists>m. fst p = Returns m)) \<and>
            (\<forall>d ds. \<not> is_function dirs \<and> dir_list dirs = Some (d # ds) \<and>
                    (get_prop (objects st) (Ref ctx) ''cache'' = Bool False \<or>
                     store_get now (Str (concat (d # ds))) (cacheForever st2) = None) \<longrightarrow>
               trace (snd r) = snd (findTemplates w (d # ds) (trace st2)) \<and>
               (\<exists>rest. trace (snd r) = trace st2 @ Glob d # rest))) \<and>
         (\<not> truthy dirs \<or> blocked \<longrightarrow>
            trace (snd r) = trace st2 \<and> cacheForever (snd r) = cacheForever st2) \<and>
         (\<not> truthy dirs \<longrightarrow>
            (\<forall>d. Glob d \<in> set (trace (snd r)) \<longrightarrow> Glob d \<in> set (trace st))) \<and>
         (\<forall>e. t_layout ts \<noteq> None \<and> thrown (fst lt) = Some e \<longrightarrow> fst r = Throws e) \<and>
         (\<not> truthy lay \<or> is_function lay \<or> (\<exists>s. lay = Str s) \<or>
          (\<exists>d. lay = Ref d \<and> d < length (objects st) \<and>
               (\<not> truthy (get_prop (objects st) (Ref d) ''headers'') \<or>
                (\<exists>b. get_prop (objects st) (Ref d) ''headers'' = Ref b \<and>
                     b < length (objects st)))) \<longrightarrow> \<not> blocked) \<and>
         (\<forall>res st'. P w this now ts ctx st = (Returns res, st') \<longrightarrow>
            (r_partials res \<noteq> None) = truthy dirs) \<and>
         truthy (partialsDir (RemoteHandlebars opts)) \<and>
         truthy (partialsDir (RemoteHandlebars_cm opts))"
  (is "?task \<and> ?run \<and> ?skip \<and> ?noglob \<and> ?throws \<and> ?free \<and> ?joined \<and> ?d1 \<and> ?d2")
proof -
  have core:
    "(truthy dirs \<and> \<not> (t_layout ts \<noteq> None \<and> thrown (fst lt) \<noteq> None) \<longrightarrow>
           trace (snd r) = trace (snd p) \<and> cacheForever (snd r) = cacheForever (snd p) \<and>
           (\<forall>e. fst p = Throws e \<longrightarrow> fst r = Throws e) \<and>
           (\<forall>txt. fst r = Returns txt \<longrightarrow> (\<exists>m. fst p = Returns m))) \<and>
     (\<not> truthy dirs \<or> (t_layout ts \<noteq> None \<and> thrown (fst lt) \<noteq> None) \<longrightarrow>
           trace (snd r) = trace st2 \<and> cacheForever (snd r) = cacheForever st2) \<and>
     (\<forall>e. t_layout ts \<noteq> None \<and> thrown (fst lt) = Some e \<longrightarrow> fst r = Throws e) \<and>
     (\<not> truthy lay \<or> is_function lay \<or> (\<exists>s. lay = Str s) \<or>
           (\<exists>d. lay = Ref d \<and> d < length (objects st) \<and>
                (\<not> truthy (get_prop (objects st) (Ref d) ''headers'') \<or>
                 (\<exists>b. get_prop (objects st) (Ref d) ''headers'' = Ref b \<and>
                      b < length (objects st)))) \<longrightarrow>
           \<not> (t_layout ts \<noteq> None \<and> thrown (fst lt) \<noteq> None)) \<and>
     get_prop (objects st2) (Ref ctx) ''cache'' = get_prop (objects st) (Ref ctx) ''cache'' \<and>
     (t_partials ts \<noteq> None) = truthy dirs \<and>
     (\<forall>res st'. P w this now ts ctx st = (Returns res, st') \<longrightarrow>
            (r_partials res \<noteq> None) = (t_partials ts \<noteq> None)) \<and>
     (\<not> truthy dirs \<longrightarrow>
            (\<forall>d. Glob d \<in> set (trace (snd r)) \<longrightarrow> Glob d \<in> set (trace st)))"
    using variant
  proof (elim disjE conjE)
    assume v: "R = render" "L = layoutTask" "T = render_tasks" "P = parallel"
    note c = render_partials_branch [OF valid lay dirs ts [unfolded v] st1 lt [unfolded v] st2 p
        r [unfolded v]]
    have g: "\<not> truthy dirs \<longrightarrow>
            (\<forall>d. Glob d \<in> set (trace (snd r)) \<longrightarrow> Glob d \<in> set (trace st))"
      using render_no_glob(1) [of st ctx this _ w now filePath] by (auto simp add: r v dirs)
    have j: "\<forall>res st'. P w this now ts ctx st = (Returns res, st') \<longrightarrow>
            (r_partials res \<noteq> None) = (t_partials ts \<noteq> None)"
      using parallel_partials_result(1) by (auto simp add: v)
    from c g j show ?thesis by (intro conjI)
  next
    assume v: "R = render_cm" "L = layoutTask_cm" "T = render_tasks_cm" "P = parallel_cm"
    note c = render_cm_partials_branch [OF valid lay dirs ts [unfolded v] st1 lt [unfolded v] st2 p
        r [unfolded v]]
    have g: "\<not> truthy dirs \<longrightarrow>
            (\<forall>d. Glob d \<in> set (trace (snd r)) \<longrightarrow> Glob d \<in> set (trace st))"
      using render_no_glob(2) [of st ctx this _ w now filePath] by (auto simp add: r v dirs)
    have j: "\<forall>res st'. P w this now ts ctx st = (Returns res, st') \<longrightarrow>
            (r_partials res \<noteq> None) = (t_partials ts \<noteq> None)"
      using parallel_partials_result(2) by (auto simp add: v)
    from c g j show ?thesis by (intro conjI)
  qed
  have task: ?task using core by blast
  have skip: ?skip using core by (simp add: blocked)
  have noglob: ?noglob using core by blast
  have throws: ?throws using core by blast
  have free: ?free using core by (simp add: blocked)
  have joined: ?joined using core by simp
  have d: ?d1 ?d2
    by (simp_all add: RemoteHandlebars_def RemoteHandlebars_cm_def js_or_def)
  have run: ?run
  proof
    assume a: "truthy dirs \<and> \<not> blocked"
    then have conf: "truthy dirs" by simp
    from a core have
      s: "trace (snd r) = trace (snd p)" "cacheForever (snd r) = cacheForever (snd p)"
         "\<forall>e. fst p = Throws e \<longrightarrow> fst r = Throws e"
         "\<forall>txt. fst r = Returns txt \<longrightarrow> (\<exists>m. fst p = Returns m)"
      by (simp_all add: blocked)
    have flag: "get_prop (objects st2) (Ref ctx) ''cache'' = get_prop (objects st) (Ref ctx) ''cache''"
      using core by blast
    have scan: "\<forall>d ds. \<not> is_function dirs \<and> dir_list dirs = Some (d # ds) \<and>
                    (get_prop (objects st) (Ref ctx) ''cache'' = Bool False \<or>
                     store_get now (Str (concat (d # ds))) (cacheForever st2) = None) \<longrightarrow>
               trace (snd r) = snd (findTemplates w (d # ds) (trace st2)) \<and>
               (\<exists>rest. trace (snd r) = trace st2 @ Glob d # rest)"
    proof (intro allI impI)
      fix d ds
      assume h: "\<not> is_function dirs \<and> dir_list dirs = Some (d # ds) \<and>
                    (get_prop (objects st) (Ref ctx) ''cache'' = Bool False \<or>
                     store_get now (Str (concat (d # ds))) (cacheForever st2) = None)"
      then have sc: "get_prop (objects st2) (Ref ctx) ''cache'' = Bool False \<or>
                store_get now (Str (concat (d # ds))) (cacheForever st2) = None"
        using flag by simp
      from h have nf: "\<not> is_function dirs" and paths: "dir_list dirs = Some (d # ds)"
        by simp_all
      show "trace (snd r) = snd (findTemplates w (d # ds) (trace st2)) \<and>
               (\<exists>rest. trace (snd r) = trace st2 @ Glob d # rest)"
        unfolding s(1) by (rule partials_scan_trace [OF conf dirs p nf paths sc])
    qed
    from s scan show "trace (snd r) = trace (snd p) \<and>
            cacheForever (snd r) = cacheForever (snd p) \<and>
            (\<forall>e. fst p = Throws e \<longrightarrow> fst r = Throws e) \<and>
            (\<forall>txt. fst r = Returns txt \<longrightarrow> (\<exists>m. fst p = Returns m)) \<and>
            (\<forall>d ds. \<not> is_function dirs \<and> dir_list dirs = Some (d # ds) \<and>
                    (get_prop (objects st) (Ref ctx) ''cache'' = Bool False \<or>
                     store_get now (Str (concat (d # ds))) (cacheForever st2) = None) \<longrightarrow>
               trace (snd r) = snd (findTemplates w (d # ds) (trace st2)) \<and>
               (\<exists>rest. trace (snd r) = trace st2 @ Glob d # rest))"
      by (intro conjI)
  qed
  from task run skip noglob throws free joined d show ?thesis by (intro conjI)
qed


theorem partials_branch_iff_configured_witness:
  "0 < length (objects (start (Map.empty(''cache'' \<mapsto> Bool False)))) \<and>
   truthy (js_or (get_prop (objects (start (Map.empty(''cache'' \<mapsto> Bool False)))) (Ref 0)
                    ''partialsDir'')
                 (partialsDir (RemoteHandlebars Map.empty))) \<and>
   (\<exists>rest. trace (snd (render demo (RemoteHandlebars Map.empty) 0 ''views/index.handlebars'' 0
                          (start (Map.empty(''cache'' \<mapsto> Bool False))))) =
            trace (snd (viewTask demo (RemoteHandlebars Map.empty) 0 ''views/index.handlebars'' 0
                          (start (Map.empty(''cache'' \<mapsto> Bool False))))) @
              Glob ''views/partials/'' # rest) \<and>
   \<not> truthy (js_or (get_prop (objects (start Map.empty)) (Ref 0) ''partialsDir'')
               (partialsDir ((RemoteHandlebars_cm Map.empty)\<lparr>partialsDir := Null\<rparr>))) \<and>
   Glob ''views/partials/'' \<notin>
     set (trace (snd (render_cm demo ((RemoteHandlebars_cm Map.empty)\<lparr>partialsDir := Null\<rparr>) 0
                        ''views/index.handlebars'' 0 (start Map.empty)))) \<and>
   trace (snd (render demo (RemoteHandlebars Map.empty) 0 ''views/index.handlebars'' 0
                 (start (Map.empty(''cache'' \<mapsto> Bool False))))) =
     [ReadFile ''/srv/views/index.handlebars'', Glob ''views/partials/'',
      ReadFile ''/srv/views/partials/x.hbs''] \<and>
   trace (snd (render_cm demo (RemoteHandlebars_cm Map.empty) 0 ''views/index.handlebars'' 0
                 (start Map.empty))) =
     [ReadFile ''/srv/views/index.handlebars'', Glob ''views/partials/'',
      ReadFile ''/srv/views/partials/x.hbs''] \<and>
   trace (snd (render demo ((RemoteHandlebars Map.empty)\<lparr>partialsDir := Null\<rparr>) 0
                 ''views/index.handlebars'' 0 (start Map.empty))) =
     [ReadFile ''/srv/views/index.handlebars''] \<and>
   trace (snd (render_cm demo ((RemoteHandlebars_cm Map.empty)\<lparr>partialsDir := Null\<rparr>) 0
                 ''views/index.handlebars'' 0 (start Map.empty))) =
     [ReadFile ''/srv/views/index.handlebars''] \<and>
   fst (render demo (RemoteHandlebars Map.empty) 0 ''views/index.handlebars'' 0
          (start (Map.empty(''layout'' \<mapsto> Num 5)))) = Throws TypeError \<and>
   trace (snd (render demo (RemoteHandlebars Map.empty) 0 ''views/index.handlebars'' 0
                 (start (Map.empty(''layout'' \<mapsto> Num 5))))) =
     [ReadFile ''/srv/views/index.handlebars''] \<and>
   fst (render demo (RemoteHandlebars Map.empty) 0 ''views/index.handlebars'' 0
          (start (Map.empty(''partialsDir'' \<mapsto> Callback)))) = Pending"
  (is "?valid \<and> ?conf \<and> ?scanned \<and> ?unconf \<and> ?noscan \<and> ?e1 \<and> ?e2 \<and> ?e3 \<and> ?e4 \<and> ?e5 \<and> ?e6 \<and> ?e7")
proof -
  let ?eng = "RemoteHandlebars Map.empty"
  let ?st = "start (Map.empty(''cache'' \<mapsto> Bool False))"
  let ?st1 = "snd (viewTask demo ?eng 0 ''views/index.handlebars'' 0 ?st)"
  let ?ts = "\<lparr> t_view = ''views/index.handlebars'', t_layout = None,
               t_partials = Some (Str ''views/partials/'') \<rparr>"
  have valid: ?valid by (simp add: start_def)
  have conf: ?conf
    by (simp add: start_def get_prop_def js_or_def RemoteHandlebars_def own_prop_def)
  have var: "render = render \<and> layoutTask = layoutTask \<and> render_tasks = render_tasks \<and>
               parallel = parallel \<or>
             render = render_cm \<and> layoutTask = layoutTask_cm \<and> render_tasks = render_tasks_cm \<and>
               parallel = parallel_cm"
    by simp
  have lay: "Bool False = (if has_prop (objects ?st) 0 ''layout''
                           then get_prop (objects ?st) (Ref 0) ''layout'' else layout ?eng)"
    by (simp add: start_def has_prop_def RemoteHandlebars_def)
  have dirs: "Str ''views/partials/'' =
                js_or (get_prop (objects ?st) (Ref 0) ''partialsDir'') (partialsDir ?eng)"
    by (simp add: start_def get_prop_def js_or_def RemoteHandlebars_def own_prop_def)
  have ts: "?ts = render_tasks ?eng (objects ?st) ''views/index.handlebars'' 0"
    by (simp add: render_tasks_def Let_def lay [symmetric] dirs [symmetric])
  have st2: "?st1 = (if t_layout ?ts = None then ?st1
                     else snd (layoutTask demo ?eng 0 (Bool False) 0 ?st1))"
    by simp
  have blocked: "False = (t_layout ?ts \<noteq> None \<and>
                   thrown (fst (layoutTask demo ?eng 0 (Bool False) 0 ?st1)) \<noteq> None)"
    by simp
  note a = partials_branch_iff_configured [OF valid var lay dirs ts refl refl st2 blocked refl refl]
  have off: "get_prop (objects ?st) (Ref 0) ''cache'' = Bool False"
    by (simp add: start_def get_prop_def)
  have pre: "truthy (Str ''views/partials/'') \<and> \<not> False" by simp
  note scan = a [THEN conjunct2, THEN conjunct1, THEN mp, OF pre, THEN conjunct2, THEN conjunct2,
      THEN conjunct2, THEN conjunct2, rule_format, of "''views/partials/''" "[]"]
  have h: "\<not> is_function (Str ''views/partials/'') \<and>
           dir_list (Str ''views/partials/'') = Some [''views/partials/''] \<and>
           (get_prop (objects ?st) (Ref 0) ''cache'' = Bool False \<or>
            store_get 0 (Str (concat [''views/partials/''])) (cacheForever ?st1) = None)"
    using off by (simp add: dir_list_def)
  have scanned: ?scanned
    by (rule scan [OF h, THEN conjunct2])
  let ?cm = "(RemoteHandlebars_cm Map.empty)\<lparr>partialsDir := Null\<rparr>"
  have valid': "0 < length (objects (start Map.empty))" by (simp add: start_def)
  have unconf: ?unconf by (simp add: start_def get_prop_def js_or_def)
  have var': "render_cm = render \<and> layoutTask_cm = layoutTask \<and> render_tasks_cm = render_tasks \<and>
                parallel_cm = parallel \<or>
              render_cm = render_cm \<and> layoutTask_cm = layoutTask_cm \<and>
                render_tasks_cm = render_tasks_cm \<and> parallel_cm = parallel_cm"
    by simp
  note b = partials_branch_iff_configured
    [OF valid' var' refl refl refl refl refl refl refl refl refl, where this = ?cm and w = demo
       and now = 0 and filePath = "''views/index.handlebars''"]
  have "Glob ''views/partials/'' \<in>
       set (trace (snd (render_cm demo ?cm 0 ''views/index.handlebars'' 0 (start Map.empty)))) \<longrightarrow>
     Glob ''views/partials/'' \<in> set (trace (start Map.empty))"
    using b [THEN conjunct2, THEN conjunct2, THEN conjunct2, THEN conjunct1] unconf by blast
  then have noscan: ?noscan by (simp add: start_def)
  have e1: ?e1 by code_simp
  have e2: ?e2 by code_simp
  have e3: ?e3 by code_simp
  have e4: ?e4 by code_simp
  have e5: ?e5 by code_simp
  have e6: ?e6 by code_simp
  have e7: ?e7 by code_simp
  from valid conf scanned unconf noscan e1 e2 e3 e4 e5 e6 e7 show ?thesis by blast
qed

section \<open>Status codes and cache-control in the two variants of requestTemplate\<close>

text \<open>
  The variant that uses stale-lru-cache turns a status code of 400 or more into an error
  and hands the cache-control value of the response to the store; the variant in
  \<open>index.js\<close> does neither, and sees nothing of a response but its body.
\<close>

lemma requestTemplate_rejects_http_errors:
  assumes "request w lg h a = Inr resp" and "400 \<le> statusCode resp"
  shows "requestTemplate w h a lg =
           (Inl (HttpStatus (statusCode resp)), lg @ [Requested (get_prop h (Ref a) ''url'')])"
  using assms by (simp add: requestTemplate_def Let_def)

lemma requestTemplate_cm_ignores_status:
  assumes "request w lg h a = Inr resp"
  shows "requestTemplate_cm w h a lg =
           (Inr (compile (body resp)), lg @ [Requested (get_prop h (Ref a) ''url'')])"
  using assms by (simp add: requestTemplate_cm_def Let_def)

lemma getLayout_fails_on_http_error:
  assumes answered: "\<And>lg h a. \<exists>resp. request w lg h a = Inr resp \<and> 400 \<le> statusCode resp"
    and fetched: "\<And>k. store_get now k (cache st) = None"
  shows "(\<exists>e. fst (getLayout w this now url options callback st) = Throws e) \<or>
         (\<exists>n. 400 \<le> n \<and> fst (getLayout w this now url options callback st) = Fails (HttpStatus n))"
    and "cache (snd (getLayout w this now url options callback st)) = cache st"
proof -
  have rt: "\<And>h a lg. \<exists>n. 400 \<le> n \<and> fst (requestTemplate w h a lg) = Inl (HttpStatus n)"
    using answered requestTemplate_rejects_http_errors by (metis fst_conv)
  show "(\<exists>e. fst (getLayout w this now url options callback st) = Throws e) \<or>
         (\<exists>n. 400 \<le> n \<and> fst (getLayout w this now url options callback st) = Fails (HttpStatus n))"
  proof (cases rule: getLayout_cases [of w this now url options callback st])
    case (throws e)
    then show ?thesis by simp
  next
    case (direct a h r lg u)
    with rt [of h a "trace st"] show ?thesis by auto
  next
    case (wrapped a h r c lg u)
    with rt [of h a "trace st"] fetched show ?thesis
      by (auto simp add: wrap_miss split: prod.splits sum.splits)
  qed
  show "cache (snd (getLayout w this now url options callback st)) = cache st"
  proof (cases rule: getLayout_cases [of w this now url options callback st])
    case (throws e)
    then show ?thesis by simp
  next
    case (direct a h r lg u)
    then show ?thesis by simp
  next
    case (wrapped a h r c lg u)
    with rt [of h a "trace st"] fetched show ?thesis
      by (auto simp add: wrap_miss split: prod.splits sum.splits)
  qed
qed

lemma join3_layout_failed:
  "join3 ov (Fails e) op \<noteq> Returns r"
  by (simp add: join3_def split: outcome.splits)

lemma render_fails_on_http_error:
  assumes valid: "ctx < length (objects st)"
    and remote: "truthy lay" "\<not> is_function lay"
      "lay = (if has_prop (objects st) ctx ''layout''
              then get_prop (objects st) (Ref ctx) ''layout'' else layout this)"
    and answered: "\<And>lg h a. \<exists>resp. request w lg h a = Inr resp \<and> 400 \<le> statusCode resp"
    and fetched: "\<And>k. store_get now k (cache st) = None"
  shows "fst (render w this now filePath ctx st) \<noteq> Returns txt"
    and "cache (snd (render w this now filePath ctx st)) = cache st"
proof -
  let ?ts = "render_tasks this (objects st) filePath ctx"
  let ?pl = "js_or (get_prop (objects st) (Ref ctx) ''placeholder'') (placeholder this)"
  let ?hs = "js_or (get_prop (objects st) (Ref ctx) ''helpers'') (helpers this)"
  have tl: "t_layout ?ts = Some lay" and tv: "t_view ?ts = filePath"
    using remote by (simp_all add: render_tasks_def Let_def)
  obtain ov st1 where v: "viewTask w this now filePath ctx st = (ov, st1)"
    by (cases "viewTask w this now filePath ctx st")
  have c1: "cache st1 = cache st" using viewTask_frame [OF v] by simp
  have nv: "thrown ov = None" using v by (rule viewTask_never_throws)
  let ?G = "getLayout w this now lay (Ref ctx) Callback st1"
  have fetched1: "\<And>k. store_get now k (cache st1) = None"
    using fetched by (simp add: c1)
  note gl = getLayout_fails_on_http_error [OF answered fetched1, of this lay "Ref ctx" Callback]
  obtain ol st2 where l: "optional (layoutTask w this now lay ctx st1) = (ol, st2)"
    by (metis surj_pair)
  have c2: "cache st2 = cache st"
    using l gl(2) remote(2) c1
    by (auto simp add: layoutTask_def split: prod.splits outcome.splits dest!: optional_frame)
  have ol: "(\<exists>e. ol = Throws e) \<or> (\<exists>e. ol = Fails e)"
    using l gl(1) remote(2)
    by (cases ?G) (auto simp add: layoutTask_def split: outcome.splits)
  obtain op st3 where p:
    "(case t_partials ?ts of None \<Rightarrow> (Returns None, st2)
      | Some dirs \<Rightarrow> optional (partialsTask w this now dirs ctx st2)) = (op, st3)"
    by (metis surj_pair)
  have c3: "cache st3 = cache st2"
  proof (cases "t_partials ?ts")
    case None
    with p show ?thesis by simp
  next
    case (Some dirs)
    with p have "st3 = snd (partialsTask w this now dirs ctx st2)"
      by (simp add: optional_frame)
    then show ?thesis
      using partialsTask_frame [of w this now dirs ctx st2] by (metis prod.collapse)
  qed
  obtain res st' where par: "parallel w this now ?ts ctx st = (res, st')"
    by (cases "parallel w this now ?ts ctx st")
  have res: "\<And>r. res \<noteq> Returns r" and st': "cache st' = cache st"
    using par ol nv c2 c3
    by (auto simp add: parallel_def tv tl v l p join3_def split: option.splits outcome.splits)
  have R: "render w this now filePath ctx st = compose w ?pl ?hs ctx res st'"
    using valid par by (simp add: render_def Let_def)
  show "fst (render w this now filePath ctx st) \<noteq> Returns txt"
    using res by (cases res) (auto simp add: R compose_def)
  show "cache (snd (render w this now filePath ctx st)) = cache st"
    using res st' by (cases res) (auto simp add: R compose_def)
qed

lemma store_set_forbidden:
  assumes "noStore d \<or> noCache d \<or> mustRevalidate d"
  shows "map_of (store_set p now k v (Some d) s) k = None"
  using assms by (simp add: store_set_def freshnessPolicy_def map_of_without)

lemma wrap_forbidden:
  assumes loaded: "loader lg = (Inr (v, Some hdr), lg')"
    and forbidden: "noStore (parseCacheControl hdr) \<or> noCache (parseCacheControl hdr) \<or>
                    mustRevalidate (parseCacheControl hdr)"
    and not_fresh: "\<And>e. store_get now k s = Some e \<Longrightarrow> \<not> before now (expiresAt e)"
    and wr: "wrap p now k loader (s, lg) = (r, s', lg')"
  shows "map_of s' k = None"
  using wr loaded not_fresh store_set_forbidden [OF forbidden]
  by (auto simp add: wrap_def split: option.splits if_splits)

lemma getLayout_string:
  assumes "truthy callback" "\<not> is_function options" "s \<noteq> []"
    and "ensure_accept (objects st) (Str s) = Inr (a, h)"
  shows "getLayout w this now (Str s) options callback st =
     (if cache_option (objects st) options = Bool False then
        (case requestTemplate w h a (trace st) of
           (r, lg) \<Rightarrow> (completed (map_sum id fst r), st\<lparr>objects := h, trace := lg\<rparr>))
      else
        (case wrap (cachePolicy this) now (Str s) (requestTemplate w h a) (cache st, trace st) of
           (r, c, lg) \<Rightarrow> (completed r, st\<lparr>objects := h, cache := c, trace := lg\<rparr>)))"
proof -
  have "cache_option h options = cache_option (objects st) options"
    using cache_flag_ensure_accept [OF assms(4)] by (simp add: cache_option_def)
  then show ?thesis
    using assms ensure_accept_string_url [OF assms(4)]
    by (simp add: getLayout_def Let_def js_or_def)
qed

lemma getLayout_honours_no_store:
  assumes shape: "truthy callback" "\<not> is_function options" "s \<noteq> []"
    and on: "cache_option (objects st) options \<noteq> Bool False"
    and answered:
      "\<And>lg h a. \<exists>resp hdr. request w lg h a = Inr resp \<and> statusCode resp < 400 \<and>
          headers resp ''cache-control'' = Some hdr \<and>
          (noStore (parseCacheControl hdr) \<or> noCache (parseCacheControl hdr) \<or>
           mustRevalidate (parseCacheControl hdr))"
    and not_fresh: "\<And>e. store_get now (Str s) (cache st) = Some e \<Longrightarrow> \<not> before now (expiresAt e)"
    and first: "getLayout w this now (Str s) options callback st = (r1, st1)"
  shows "map_of (cache st1) (Str s) = None"
    and "trace (snd (getLayout w this now' (Str s) options callback st1)) =
           trace st1 @ [Requested (Str s)]"
proof -
  obtain a h where ea: "ensure_accept (objects st) (Str s) = Inr (a, h)"
    by (simp add: ensure_accept_string)
  obtain resp hdr where resp: "request w (trace st) h a = Inr resp" "statusCode resp < 400"
      "headers resp ''cache-control'' = Some hdr"
      "noStore (parseCacheControl hdr) \<or> noCache (parseCacheControl hdr) \<or>
       mustRevalidate (parseCacheControl hdr)"
    using answered by blast
  let ?lg = "trace st @ [Requested (get_prop h (Ref a) ''url'')]"
  have loaded: "requestTemplate w h a (trace st) = (Inr (compile (body resp), Some hdr), ?lg)"
    using resp by (simp add: requestTemplate_def Let_def)
  obtain r c lg where wr:
    "wrap (cachePolicy this) now (Str s) (requestTemplate w h a) (cache st, trace st) = (r, c, lg)"
    by (metis prod_cases3)
  have lg: "lg = trace st \<or> lg = ?lg"
    using wrap_trace [OF wr] loaded by simp
  have st1: "st1 = st\<lparr>objects := h, cache := c, trace := lg\<rparr>"
    using first on wr by (simp add: getLayout_string [OF shape ea])
  have gone: "map_of c (Str s) = None"
  proof (cases "lg = ?lg")
    case True
    with wr have "wrap (cachePolicy this) now (Str s) (requestTemplate w h a) (cache st, trace st) =
                    (r, c, ?lg)" by simp
    with loaded resp(4) not_fresh show ?thesis by (rule wrap_forbidden)
  next
    case False
    with lg have "lg = trace st" by simp
    with wr loaded not_fresh show ?thesis
      by (auto simp add: wrap_def split: option.splits if_splits)
  qed
  show "map_of (cache st1) (Str s) = None"
    using gone by (simp add: st1)
  obtain a' h' where ea': "ensure_accept (objects st1) (Str s) = Inr (a', h')"
    by (simp add: ensure_accept_string)
  have miss: "store_get now' (Str s) (cache st1) = None"
    using gone by (simp add: st1 store_get_def)
  show "trace (snd (getLayout w this now' (Str s) options callback st1)) =
           trace st1 @ [Requested (Str s)]"
    using ensure_accept_string_url [OF ea']
    by (auto simp add: getLayout_string [OF shape ea'] wrap_miss miss
        split: prod.splits sum.splits dest: requestTemplate_traceD(1))
qed

lemma getLayout_cm_sees_only_the_body:
  assumes "\<And>lg h a. map_sum id body (request w lg h a) = map_sum id body (request w' lg h a)"
  shows "getLayout_cm w this now url options callback st =
         getLayout_cm w' this now url options callback st"
proof -
  have "\<And>h a lg. requestTemplate_cm w h a lg = requestTemplate_cm w' h a lg"
  proof -
    fix h a lg
    show "requestTemplate_cm w h a lg = requestTemplate_cm w' h a lg"
      using assms [of lg h a]
      by (cases "request w lg h a"; cases "request w' lg h a")
         (simp_all add: requestTemplate_cm_def Let_def)
  qed
  then have eq: "requestTemplate_cm w = requestTemplate_cm w'"
    by (intro ext)
  show ?thesis
    unfolding getLayout_cm_def eq ..
qed

text \<open>
  Claim C1. A layout fetch that is answered with a status code of 400 or more must fail
  the render with an error and no text. The variant of \<open>requestTemplate\<close> in \<open>index.js\<close>
  never looks at the status code: at the layout that answers 404 with the body
  \<open>Not Found\<close> it compiles that body, and the render succeeds with it wrapped around the
  view. The other variant reports the error on the same input.
\<close>

theorem render_cm_renders_the_404_body:
  "map_option statusCode (layouts ''http://mocked/layouts/error'') = Some 404 \<and>
   fst (render_cm demo
          (RemoteHandlebars_cm (Map.empty(''layout'' \<mapsto> Str ''http://mocked/layouts/error'')))
          0 ''views/index.handlebars'' 0 (start Map.empty)) = Returns ''Not Found<article>'' \<and>
   fst (render demo
          (RemoteHandlebars (Map.empty(''layout'' \<mapsto> Str ''http://mocked/layouts/error'')))
          0 ''views/index.handlebars'' 0 (start Map.empty)) = Fails (HttpStatus 404)"
  by code_simp

text \<open>
  Claim C2. A response that carries \<open>no-cache, no-store, must-revalidate\<close> must not be
  served from the cache on the next call. The variant of \<open>requestTemplate\<close> in \<open>index.js\<close>
  hands its callback the template alone, so the store never sees the header: with a
  \<open>maxAge\<close> of 600 seconds the template is stored, and a second call one second later is
  answered from the store without a request. The other variant hands the header on; there
  nothing is stored and the second call asks the transport again.
\<close>

theorem getLayout_cm_caches_despite_no_store:
  "map_option (\<lambda>r. headers r ''cache-control'') (layouts ''http://mocked/layouts/uncached'') =
     Some (Some ''no-cache, no-store, must-revalidate'') \<and>
   (let this = RemoteHandlebars_cm (Map.empty(''layout'' \<mapsto> Str ''http://mocked/layouts/uncached'',
                                               ''maxAge'' \<mapsto> Num 600));
        r1 = getLayout_cm demo this 0 Callback Undefined Undefined (start Map.empty);
        r2 = getLayout_cm demo this 1 Callback Undefined Undefined (snd r1)
    in map fst (cache (snd r1)) = [Str ''http://mocked/layouts/uncached''] \<and>
       fst r2 = Returns (Compiled ''<body>'') \<and>
       trace (snd r2) = [Requested (Str ''http://mocked/layouts/uncached'')]) \<and>
   (let this = RemoteHandlebars (Map.empty(''layout'' \<mapsto> Str ''http://mocked/layouts/uncached'',
                                            ''maxAge'' \<mapsto> Num 600));
        r1 = getLayout demo this 0 Callback Undefined Undefined (start Map.empty);
        r2 = getLayout demo this 1 Callback Undefined Undefined (snd r1)
    in cache (snd r1) = [] \<and>
       fst r2 = Returns (Compiled ''<body>'') \<and>
       trace (snd r2) = [Requested (Str ''http://mocked/layouts/uncached''),
                         Requested (Str ''http://mocked/layouts/uncached'')])"
  by code_simp

end
